theory Spec2Isabelle
  imports Main "HOL-Library.Word" "HOL-Library.Sublist" "HOL-Library.AList"
begin

unbundle bit_operations_syntax

section \<open>Bytes and the signature registries\<close>

text \<open>
  A Python \<open>bytes\<close> value is a list of 8-bit words. A registry is the dictionary
  \<open>self.file_signatures\<close>: Python dictionaries iterate in insertion order and have no
  duplicate keys, so it is an association list from the format tag to the list of its
  alternative magic byte patterns, in the order of the source.
\<close>

type_synonym byte = "8 word"
type_synonym bytes = "byte list"
type_synonym registry = "(string \<times> bytes list) list"

text \<open>\<open>AndroidForensicTool.file_signatures\<close> (android_adb_tool.py).\<close>

definition android_file_signatures :: registry where
  "android_file_signatures =
    [(''jpg'', [[0xFF, 0xD8, 0xFF]]),
     (''png'', [[0x89, 0x50, 0x4E, 0x47]]),
     (''gif'', [[0x47, 0x49, 0x46, 0x38]]),
     (''pdf'', [[0x25, 0x50, 0x44, 0x46]]),
     (''zip'', [[0x50, 0x4B, 0x03, 0x04]]),
     (''mp4'', [[0x00, 0x00, 0x00, 0x18, 0x66, 0x74, 0x79, 0x70],
               [0x00, 0x00, 0x00, 0x1C, 0x66, 0x74, 0x79, 0x70]]),
     (''mp3'', [[0x49, 0x44, 0x33], [0xFF, 0xFB]]),
     (''doc'', [[0xD0, 0xCF, 0x11, 0xE0]]),
     (''docx'', [[0x50, 0x4B, 0x03, 0x04]]),
     (''sqlite'', [[0x53, 0x51, 0x4C, 0x69, 0x74, 0x65, 0x20, 0x66,
                   0x6F, 0x72, 0x6D, 0x61, 0x74, 0x20, 0x33]])]"

text \<open>\<open>UniversalForensicTool.file_signatures\<close> (universal_forensic_tool.py).\<close>

definition universal_file_signatures :: registry where
  "universal_file_signatures =
    [(''jpg'', [[0xFF, 0xD8, 0xFF, 0xE0], [0xFF, 0xD8, 0xFF, 0xE1], [0xFF, 0xD8, 0xFF, 0xE2]]),
     (''png'', [[0x89, 0x50, 0x4E, 0x47, 0x0D, 0x0A, 0x1A, 0x0A]]),
     (''gif'', [[0x47, 0x49, 0x46, 0x38, 0x37, 0x61], [0x47, 0x49, 0x46, 0x38, 0x39, 0x61]]),
     (''bmp'', [[0x42, 0x4D]]),
     (''ico'', [[0x00, 0x00, 0x01, 0x00]]),
     (''tiff'', [[0x49, 0x49, 0x2A, 0x00], [0x4D, 0x4D, 0x00, 0x2A]]),
     (''pdf'', [[0x25, 0x50, 0x44, 0x46]]),
     (''doc'', [[0xD0, 0xCF, 0x11, 0xE0, 0xA1, 0xB1, 0x1A, 0xE1]]),
     (''docx'', [[0x50, 0x4B, 0x03, 0x04]]),
     (''xls'', [[0xD0, 0xCF, 0x11, 0xE0, 0xA1, 0xB1, 0x1A, 0xE1]]),
     (''xlsx'', [[0x50, 0x4B, 0x03, 0x04]]),
     (''ppt'', [[0xD0, 0xCF, 0x11, 0xE0, 0xA1, 0xB1, 0x1A, 0xE1]]),
     (''pptx'', [[0x50, 0x4B, 0x03, 0x04]]),
     (''txt'', [[0xEF, 0xBB, 0xBF], [0xFF, 0xFE], [0xFE, 0xFF]]),
     (''rtf'', [[0x7B, 0x5C, 0x72, 0x74, 0x66]]),
     (''zip'', [[0x50, 0x4B, 0x03, 0x04], [0x50, 0x4B, 0x05, 0x06]]),
     (''rar'', [[0x52, 0x61, 0x72, 0x21, 0x1A, 0x07]]),
     (''7z'', [[0x37, 0x7A, 0xBC, 0xAF, 0x27, 0x1C]]),
     (''tar'', [[0x75, 0x73, 0x74, 0x61, 0x72]]),
     (''gz'', [[0x1F, 0x8B]]),
     (''mp4'', [[0x00, 0x00, 0x00, 0x18, 0x66, 0x74, 0x79, 0x70],
               [0x00, 0x00, 0x00, 0x1C, 0x66, 0x74, 0x79, 0x70]]),
     (''mp3'', [[0x49, 0x44, 0x33], [0xFF, 0xFB], [0xFF, 0xF3], [0xFF, 0xF2]]),
     (''wav'', [[0x52, 0x49, 0x46, 0x46]]),
     (''avi'', [[0x52, 0x49, 0x46, 0x46]]),
     (''mkv'', [[0x1A, 0x45, 0xDF, 0xA3]]),
     (''flv'', [[0x46, 0x4C, 0x56]]),
     (''mov'', [[0x00, 0x00, 0x00, 0x14, 0x66, 0x74, 0x79, 0x70]]),
     (''exe'', [[0x4D, 0x5A]]),
     (''dll'', [[0x4D, 0x5A]]),
     (''so'', [[0x7F, 0x45, 0x4C, 0x46]]),
     (''dmg'', [[0x78, 0x01, 0x73, 0x0D, 0x62, 0x62, 0x60]]),
     (''sqlite'', [[0x53, 0x51, 0x4C, 0x69, 0x74, 0x65, 0x20, 0x66,
                   0x6F, 0x72, 0x6D, 0x61, 0x74, 0x20, 0x33]]),
     (''mdb'', [[0x00, 0x01, 0x00, 0x00, 0x53, 0x74, 0x61, 0x6E,
                0x64, 0x61, 0x72, 0x64, 0x20, 0x4A]]),
     (''pst'', [[0x21, 0x42, 0x44, 0x4E]]),
     (''eml'', [[0x46, 0x72, 0x6F, 0x6D]])]"

text \<open>
  \<open>UniversalForensicTool.typical_sizes\<close>: tag to (minimum, maximum) size in bytes.
  No function of the three tools reads this table.
\<close>

definition typical_sizes :: "(string \<times> nat \<times> nat) list" where
  "typical_sizes =
    [(''jpg'', (10 * 1024, 10 * 1024 * 1024)),
     (''png'', (5 * 1024, 5 * 1024 * 1024)),
     (''pdf'', (50 * 1024, 50 * 1024 * 1024)),
     (''doc'', (20 * 1024, 100 * 1024 * 1024)),
     (''mp4'', (100 * 1024, 5 * 1024 * 1024 * 1024)),
     (''mp3'', (100 * 1024, 20 * 1024 * 1024))]"

text \<open>All (tag, pattern) registrations of a registry, in iteration order.\<close>

definition registrations :: "registry \<Rightarrow> (string \<times> bytes) list" where
  "registrations reg = concat (map (\<lambda>(file_type, signatures). map (Pair file_type) signatures) reg)"

section \<open>Library functions of Python used by the buffer scan\<close>

text \<open>
  \<open>bytes.startswith(sig)\<close> is \<^const>\<open>prefix\<close>. \<open>bytes.find(sub, start)\<close> returns the lowest
  index \<open>i \<ge> start\<close> with \<open>data[i:i+len(sub)] == sub\<close>, and \<open>-1\<close> (here \<open>None\<close>) when there
  is none; an empty \<open>sub\<close> is found at every \<open>start \<le> len(data)\<close>.
\<close>

fun find_at :: "bytes \<Rightarrow> bytes \<Rightarrow> nat \<Rightarrow> nat option" where
  "find_at sub [] i = (if sub = [] then Some i else None)"
| "find_at sub (x # xs) i = (if prefix sub (x # xs) then Some i else find_at sub xs (Suc i))"

definition find :: "bytes \<Rightarrow> bytes \<Rightarrow> nat \<Rightarrow> nat option" where
  "find data sub start =
     (if length data < start then None else find_at sub (drop start data) start)"

text \<open>\<open>bytes.hex()\<close>: two lower-case hexadecimal digits per byte.\<close>

definition hex_digit :: "nat \<Rightarrow> char" where
  "hex_digit n = ''0123456789abcdef'' ! (n mod 16)"

definition hex :: "bytes \<Rightarrow> string" where
  "hex bs = concat (map (\<lambda>b. [hex_digit (unat b div 16), hex_digit (unat b mod 16)]) bs)"

section \<open>Buffer mode: \<open>carve_files_from_data\<close>\<close>

text \<open>The dictionary appended to \<open>carved_files\<close> for every hit.\<close>

record carved =
  type :: string
  offset :: nat
  signature :: string

text \<open>
  The \<open>while True\<close> loop of one pattern. It has no bound of its own (with an empty
  pattern \<open>pos\<close> never advances), so it is a partial function: \<open>None\<close> is "does not
  return".
\<close>

partial_function (option) carve_while ::
  "bytes \<Rightarrow> string \<Rightarrow> bytes \<Rightarrow> nat \<Rightarrow> carved list \<Rightarrow> carved list option" where
  "carve_while data file_type sig pos carved_files =
     (case find data sig pos of
        None \<Rightarrow> Some carved_files
      | Some p \<Rightarrow>
          carve_while data file_type sig (p + length sig)
            (carved_files @ [\<lparr>type = file_type, offset = p, signature = hex sig\<rparr>]))"

declare carve_while.simps [code]

text \<open>\<open>for sig in signatures\<close> and \<open>for file_type, signatures in ...items()\<close>.\<close>

fun carve_sigs :: "bytes \<Rightarrow> string \<Rightarrow> bytes list \<Rightarrow> carved list \<Rightarrow> carved list option" where
  "carve_sigs data file_type [] carved_files = Some carved_files"
| "carve_sigs data file_type (sig # signatures) carved_files =
     (case carve_while data file_type sig 0 carved_files of
        None \<Rightarrow> None
      | Some carved_files' \<Rightarrow> carve_sigs data file_type signatures carved_files')"

fun carve_types :: "bytes \<Rightarrow> registry \<Rightarrow> carved list \<Rightarrow> carved list option" where
  "carve_types data [] carved_files = Some carved_files"
| "carve_types data ((file_type, signatures) # rest) carved_files =
     (case carve_sigs data file_type signatures carved_files of
        None \<Rightarrow> None
      | Some carved_files' \<Rightarrow> carve_types data rest carved_files')"

definition carve_files_from_data :: "registry \<Rightarrow> bytes \<Rightarrow> carved list option" where
  "carve_files_from_data reg data = carve_types data reg []"

text \<open>
  The registry invariant of the specification: every registered pattern is non-empty. Both
  shipped registries satisfy it.
\<close>

definition nonempty_patterns :: "registry \<Rightarrow> bool" where
  "nonempty_patterns reg = (\<forall>r \<in> set (registrations reg). snd r \<noteq> [])"


section \<open>The matcher: \<open>detect_file_type\<close>\<close>

text \<open>
  Both tools walk the registry in its iteration order and return the tag of the first
  pattern that the data starts with, \<open>'unknown'\<close> when there is none. The registry is the
  attribute \<open>self.file_signatures\<close>, a parameter here. \<open>bytes.startswith\<close> and
  \<open>len\<close> cannot raise on a \<open>bytes\<close> value, so the functions are total.
\<close>

fun match_signatures :: "bytes \<Rightarrow> bytes list \<Rightarrow> bool" where
  "match_signatures data [] = False"
| "match_signatures data (sig # signatures) =
     (if prefix sig data then True else match_signatures data signatures)"

fun detect_loop :: "registry \<Rightarrow> bytes \<Rightarrow> string" where
  "detect_loop [] data = ''unknown''"
| "detect_loop ((file_type, signatures) # rest) data =
     (if match_signatures data signatures then file_type else detect_loop rest data)"

text \<open>\<open>AndroidForensicTool.detect_file_type\<close>.\<close>

definition android_detect_file_type :: "registry \<Rightarrow> bytes \<Rightarrow> string" where
  "android_detect_file_type reg data = detect_loop reg data"

text \<open>\<open>UniversalForensicTool.detect_file_type\<close>: the same loop behind a length guard.\<close>

definition detect_file_type :: "registry \<Rightarrow> bytes \<Rightarrow> string" where
  "detect_file_type reg data = (if length data < 16 then ''unknown'' else detect_loop reg data)"

text \<open>The length of the longest registered pattern (0 for an empty registry).\<close>

definition longest_pattern :: "registry \<Rightarrow> nat" where
  "longest_pattern reg = foldr max (map (\<lambda>r. length (snd r)) (registrations reg)) 0"


section \<open>SHA-256\<close>

text \<open>
  \<open>recover_file\<close> calls \<open>hashlib.sha256(...).hexdigest()\<close>. The digest is the function of
  FIPS 180-4: padding to a multiple of 64 bytes, big-endian 32-bit words, the message
  schedule, 64 rounds per block with addition modulo \<open>2^32\<close>.
\<close>

type_synonym word32 = "32 word"

definition rotr :: "nat \<Rightarrow> word32 \<Rightarrow> word32" where
  "rotr n x = drop_bit n x OR push_bit (32 - n) x"

definition ch :: "word32 \<Rightarrow> word32 \<Rightarrow> word32 \<Rightarrow> word32" where
  "ch x y z = (x AND y) XOR (NOT x AND z)"

definition maj :: "word32 \<Rightarrow> word32 \<Rightarrow> word32 \<Rightarrow> word32" where
  "maj x y z = (x AND y) XOR (x AND z) XOR (y AND z)"

definition big_sigma0 :: "word32 \<Rightarrow> word32" where
  "big_sigma0 x = rotr 2 x XOR rotr 13 x XOR rotr 22 x"

definition big_sigma1 :: "word32 \<Rightarrow> word32" where
  "big_sigma1 x = rotr 6 x XOR rotr 11 x XOR rotr 25 x"

definition small_sigma0 :: "word32 \<Rightarrow> word32" where
  "small_sigma0 x = rotr 7 x XOR rotr 18 x XOR drop_bit 3 x"

definition small_sigma1 :: "word32 \<Rightarrow> word32" where
  "small_sigma1 x = rotr 17 x XOR rotr 19 x XOR drop_bit 10 x"

definition sha256_k :: "word32 list" where
  "sha256_k =
    [0x428A2F98, 0x71374491, 0xB5C0FBCF, 0xE9B5DBA5,
     0x3956C25B, 0x59F111F1, 0x923F82A4, 0xAB1C5ED5,
     0xD807AA98, 0x12835B01, 0x243185BE, 0x550C7DC3,
     0x72BE5D74, 0x80DEB1FE, 0x9BDC06A7, 0xC19BF174,
     0xE49B69C1, 0xEFBE4786, 0x0FC19DC6, 0x240CA1CC,
     0x2DE92C6F, 0x4A7484AA, 0x5CB0A9DC, 0x76F988DA,
     0x983E5152, 0xA831C66D, 0xB00327C8, 0xBF597FC7,
     0xC6E00BF3, 0xD5A79147, 0x06CA6351, 0x14292967,
     0x27B70A85, 0x2E1B2138, 0x4D2C6DFC, 0x53380D13,
     0x650A7354, 0x766A0ABB, 0x81C2C92E, 0x92722C85,
     0xA2BFE8A1, 0xA81A664B, 0xC24B8B70, 0xC76C51A3,
     0xD192E819, 0xD6990624, 0xF40E3585, 0x106AA070,
     0x19A4C116, 0x1E376C08, 0x2748774C, 0x34B0BCB5,
     0x391C0CB3, 0x4ED8AA4A, 0x5B9CCA4F, 0x682E6FF3,
     0x748F82EE, 0x78A5636F, 0x84C87814, 0x8CC70208,
     0x90BEFFFA, 0xA4506CEB, 0xBEF9A3F7, 0xC67178F2]"

definition sha256_h0 :: "word32 list" where
  "sha256_h0 =
    [0x6A09E667, 0xBB67AE85, 0x3C6EF372, 0xA54FF53A,
     0x510E527F, 0x9B05688C, 0x1F83D9AB, 0x5BE0CD19]"

text \<open>The message length in bits as eight bytes, most significant first.\<close>

definition be64 :: "64 word \<Rightarrow> bytes" where
  "be64 w = map (\<lambda>i. ucast (drop_bit (8 * (7 - i)) w)) [0..<8]"

definition sha256_pad :: "bytes \<Rightarrow> bytes" where
  "sha256_pad msg =
     msg @ [0x80] @ replicate ((64 - (length msg + 9) mod 64) mod 64) 0 @ be64 (of_nat (8 * length msg))"

fun be_words :: "bytes \<Rightarrow> word32 list" where
  "be_words (a # b # c # d # rest) =
     (push_bit 24 (ucast a) OR push_bit 16 (ucast b) OR push_bit 8 (ucast c) OR ucast d)
       # be_words rest"
| "be_words _ = []"

definition be32 :: "word32 \<Rightarrow> bytes" where
  "be32 w = [ucast (drop_bit 24 w), ucast (drop_bit 16 w), ucast (drop_bit 8 w), ucast w]"

text \<open>The message schedule: \<open>n\<close> further words appended to \<open>w\<close>.\<close>

fun schedule :: "nat \<Rightarrow> word32 list \<Rightarrow> word32 list" where
  "schedule 0 w = w"
| "schedule (Suc n) w =
     schedule n
       (w @ [small_sigma1 (w ! (length w - 2)) + w ! (length w - 7) +
             small_sigma0 (w ! (length w - 15)) + w ! (length w - 16)])"

text \<open>One round on the working variables \<open>a, \<dots>, h\<close>, kept as a list of eight words.\<close>

definition sha256_round :: "word32 list \<Rightarrow> word32 \<times> word32 \<Rightarrow> word32 list" where
  "sha256_round v kw =
     (case v of
        [a, b, c, d, e, f, g, h] \<Rightarrow>
          (let t1 = h + big_sigma1 e + ch e f g + fst kw + snd kw;
               t2 = big_sigma0 a + maj a b c
           in [t1 + t2, a, b, c, d + t1, e, f, g])
      | _ \<Rightarrow> v)"

definition sha256_block :: "word32 list \<Rightarrow> word32 list \<Rightarrow> word32 list" where
  "sha256_block hs block =
     map2 (+) hs (foldl sha256_round hs (zip sha256_k (schedule 48 block)))"

fun sha256_blocks :: "word32 list \<Rightarrow> word32 list \<Rightarrow> word32 list" where
  "sha256_blocks hs ws =
     (if length ws < 16 then hs else sha256_blocks (sha256_block hs (take 16 ws)) (drop 16 ws))"

definition sha256 :: "bytes \<Rightarrow> bytes" where
  "sha256 msg = concat (map be32 (sha256_blocks sha256_h0 (be_words (sha256_pad msg))))"

text \<open>\<open>hashlib.sha256(data).hexdigest()\<close>.\<close>

definition sha256_hexdigest :: "bytes \<Rightarrow> string" where
  "sha256_hexdigest msg = hex (sha256 msg)"


section \<open>Tree mode: the file system\<close>

text \<open>
  The tools reach the file system through \<open>pathlib\<close>, \<open>open\<close> and \<open>shutil\<close>. The file
  system is a tree. A file carries its permission bits (whether it may be opened for
  reading, for writing), its modification time in seconds since the epoch and its content.
  A directory carries three permissions (whether it may be listed, whether entries may be
  created in it, whether its entries may be reached) and its entries, in the order
  \<open>os.scandir\<close> lists them. The caller is an unprivileged user who owns the files. Links,
  special files and the size of the disk are left out.

  A path is the list of its components below the root of the tree; relative paths are
  resolved against the working directory.
\<close>

type_synonym path = "string list"

datatype node =
    File bool bool int bytes
  | Dir bool bool bool "(string \<times> node) list"

text \<open>
  The exceptions that occur. All but the last three are \<open>OSError\<close> or subclasses of it;
  \<open>UnicodeEncodeError\<close> is a subclass of \<open>ValueError\<close>; all are subclasses of
  \<open>Exception\<close>.
\<close>

datatype exn =
    PermissionError
  | FileNotFoundError
  | NotADirectoryError
  | IsADirectoryError
  | FileExistsError
  | SameFileError
  | OSError
  | ValueError
  | UnicodeEncodeError
  | OverflowError

fun is_OSError :: "exn \<Rightarrow> bool" where
  "is_OSError ValueError = False"
| "is_OSError UnicodeEncodeError = False"
| "is_OSError OverflowError = False"
| "is_OSError e = True"

text \<open>\<open>os.stat(p)\<close>: resolves a path, every directory on the way must be searchable.\<close>

fun lookup :: "node \<Rightarrow> path \<Rightarrow> exn + node" where
  "lookup n [] = Inr n"
| "lookup (File readable writable mtime content) (name # rest) = Inl NotADirectoryError"
| "lookup (Dir listable writable searchable entries) (name # rest) =
     (if \<not> searchable then Inl PermissionError
      else case map_of entries name of
             None \<Rightarrow> Inl FileNotFoundError
           | Some child \<Rightarrow> lookup child rest)"

text \<open>\<open>st_size\<close> of a \<open>stat\<close> result (the size of a directory is not modelled).\<close>

fun st_size :: "node \<Rightarrow> nat" where
  "st_size (File readable writable mtime content) = length content"
| "st_size (Dir listable writable searchable entries) = 0"

text \<open>
  \<open>Path.exists()\<close> and \<open>Path.is_file()\<close>: \<open>False\<close> when the path does not exist; "other
  errors (such as permission errors) are propagated", as the documentation of \<open>pathlib\<close>
  says.
\<close>

definition path_exists :: "node \<Rightarrow> path \<Rightarrow> exn + bool" where
  "path_exists fs p =
     (case lookup fs p of
        Inr n \<Rightarrow> Inr True
      | Inl FileNotFoundError \<Rightarrow> Inr False
      | Inl NotADirectoryError \<Rightarrow> Inr False
      | Inl e \<Rightarrow> Inl e)"

definition is_file :: "node \<Rightarrow> path \<Rightarrow> exn + bool" where
  "is_file fs p =
     (case lookup fs p of
        Inr (File readable writable mtime content) \<Rightarrow> Inr True
      | Inr (Dir listable writable searchable entries) \<Rightarrow> Inr False
      | Inl FileNotFoundError \<Rightarrow> Inr False
      | Inl NotADirectoryError \<Rightarrow> Inr False
      | Inl e \<Rightarrow> Inl e)"

text \<open>\<open>open(p, 'rb').read()\<close>.\<close>

definition read_file :: "node \<Rightarrow> path \<Rightarrow> exn + bytes" where
  "read_file fs p =
     (case lookup fs p of
        Inl e \<Rightarrow> Inl e
      | Inr (Dir listable writable searchable entries) \<Rightarrow> Inl IsADirectoryError
      | Inr (File readable writable mtime content) \<Rightarrow>
          if readable then Inr content else Inl PermissionError)"

text \<open>
  \<open>Path(p).rglob('*')\<close> on the directory \<open>n\<close> found at \<open>p\<close>, as CPython walks it: the
  directories in pre-order, for each of them its entries. A directory that cannot be listed,
  or cannot be reached because its parent is not searchable, contributes nothing: the walk
  catches the \<open>PermissionError\<close> of \<open>os.scandir\<close> and goes on.
\<close>

fun rglob :: "path \<Rightarrow> node \<Rightarrow> path list"
  and rglob_dirs :: "path \<Rightarrow> (string \<times> node) list \<Rightarrow> path list" where
  "rglob p (File readable writable mtime content) = []"
| "rglob p (Dir listable writable searchable entries) =
     (if listable
      then map (\<lambda>e. p @ [fst e]) entries @ (if searchable then rglob_dirs p entries else [])
      else [])"
| "rglob_dirs p [] = []"
| "rglob_dirs p (e # entries) = rglob (p @ [fst e]) (snd e) @ rglob_dirs p entries"

text \<open>
  \<open>Path(p).rglob('*')\<close> from the file system: nothing when \<open>p\<close> is not a directory
  (\<open>is_dir\<close>, which lets permission errors through).
\<close>

definition rglob_at :: "node \<Rightarrow> path \<Rightarrow> exn + path list" where
  "rglob_at fs p =
     (case lookup fs p of
        Inr n \<Rightarrow> Inr (rglob p n)
      | Inl FileNotFoundError \<Rightarrow> Inr []
      | Inl NotADirectoryError \<Rightarrow> Inr []
      | Inl e \<Rightarrow> Inl e)"

text \<open>
  \<open>Path.mkdir(parents=True, exist_ok=True)\<close>: creates the missing directories, each in a
  directory that is searchable and writable; fails where a file is in the way or a directory
  on the way is not searchable. A directory it creates is empty and open to its owner, so
  whenever it fails it has created nothing.
\<close>

fun mkdir_p :: "node \<Rightarrow> path \<Rightarrow> exn + node" where
  "mkdir_p (Dir listable writable searchable entries) [] =
     Inr (Dir listable writable searchable entries)"
| "mkdir_p (File readable writable mtime content) [] = Inl FileExistsError"
| "mkdir_p (File readable writable mtime content) (name # rest) = Inl NotADirectoryError"
| "mkdir_p (Dir listable writable searchable entries) (name # rest) =
     (if \<not> searchable then Inl PermissionError
      else case map_of entries name of
             None \<Rightarrow>
               (if \<not> writable then Inl PermissionError
                else case mkdir_p (Dir True True True []) rest of
                       Inl e \<Rightarrow> Inl e
                     | Inr child' \<Rightarrow>
                         Inr (Dir listable writable searchable
                                (AList.update name child' entries)))
           | Some child \<Rightarrow>
               (case mkdir_p child rest of
                  Inl e \<Rightarrow> Inl e
                | Inr child' \<Rightarrow>
                    Inr (Dir listable writable searchable
                           (AList.update name child' entries))))"

text \<open>
  Opening a path to change what is there: the path is resolved as for \<open>stat\<close>, then \<open>g\<close>
  says what becomes of the node found (\<open>Some\<close>) or what is created where the last component
  is missing (\<open>None\<close>), which needs a writable directory.
\<close>

fun alter :: "(node option \<Rightarrow> exn + node) \<Rightarrow> node \<Rightarrow> path \<Rightarrow> exn + node" where
  "alter g n [] = g (Some n)"
| "alter g (File readable writable mtime content) (name # rest) = Inl NotADirectoryError"
| "alter g (Dir listable writable searchable entries) (name # rest) =
     (if \<not> searchable then Inl PermissionError
      else case map_of entries name of
             None \<Rightarrow>
               (if rest \<noteq> [] then Inl FileNotFoundError
                else case g None of
                       Inl e \<Rightarrow> Inl e
                     | Inr child \<Rightarrow>
                         if writable
                         then Inr (Dir listable writable searchable
                                     (AList.update name child entries))
                         else Inl PermissionError)
           | Some child \<Rightarrow>
               (case alter g child rest of
                  Inl e \<Rightarrow> Inl e
                | Inr child' \<Rightarrow>
                    Inr (Dir listable writable searchable
                           (AList.update name child' entries))))"

text \<open>
  \<open>open(p, 'a')\<close> at time \<open>t\<close>: creates an empty file where there is none, leaves a writable
  file as it is.
\<close>

fun open_a :: "int \<Rightarrow> node option \<Rightarrow> exn + node" where
  "open_a t None = Inr (File True True t [])"
| "open_a t (Some (File readable writable mtime content)) =
     (if writable then Inr (File readable writable mtime content) else Inl PermissionError)"
| "open_a t (Some (Dir listable writable searchable entries)) = Inl IsADirectoryError"

text \<open>Writing \<open>entry\<close> at the end of the file opened so, at time \<open>t\<close>.\<close>

fun write_a :: "bytes \<Rightarrow> int \<Rightarrow> node option \<Rightarrow> exn + node" where
  "write_a entry t None = Inl FileNotFoundError"
| "write_a entry t (Some (File readable writable mtime content)) =
     Inr (File readable writable t (content @ entry))"
| "write_a entry t (Some (Dir listable writable searchable entries)) = Inl IsADirectoryError"

text \<open>
  What \<open>shutil.copy2\<close> does to its target, given the permission bits, the modification time
  and the content of the source: \<open>open(dst, 'wb')\<close>, which creates the file or truncates a
  writable one, the copy of the content, then \<open>copystat\<close>, which gives the target the
  permission bits and the times of the source.
\<close>

fun copy_onto :: "bool \<Rightarrow> bool \<Rightarrow> int \<Rightarrow> bytes \<Rightarrow> node option \<Rightarrow> exn + node" where
  "copy_onto r w t c None = Inr (File r w t c)"
| "copy_onto r w t c (Some (File readable writable mtime content)) =
     (if writable then Inr (File r w t c) else Inl PermissionError)"
| "copy_onto r w t c (Some (Dir listable writable searchable entries)) = Inl IsADirectoryError"

text \<open>\<open>Path.name\<close>: the last component, empty for the root.\<close>

definition name_of :: "path \<Rightarrow> string" where
  "name_of p = (if p = [] then [] else last p)"

text \<open>
  \<open>shutil.copy2(src, dst)\<close>: into \<open>dst\<close> when that is a directory; \<open>SameFileError\<close> when
  source and target are the same file; the source is opened before the target.
\<close>

definition copy2 :: "node \<Rightarrow> path \<Rightarrow> path \<Rightarrow> exn + node" where
  "copy2 fs src dst =
     (let target = (case lookup fs dst of
                      Inr (Dir listable writable searchable entries) \<Rightarrow> dst @ [name_of src]
                    | _ \<Rightarrow> dst)
      in if src = target then Inl SameFileError
         else case lookup fs src of
                Inl e \<Rightarrow> Inl e
              | Inr (Dir listable writable searchable entries) \<Rightarrow> Inl IsADirectoryError
              | Inr (File readable writable mtime content) \<Rightarrow>
                  if readable then alter (copy_onto readable writable mtime content) fs target
                  else Inl PermissionError)"

section \<open>Tree mode: the console, the clock and the log\<close>

text \<open>
  What the tool prints and logs. The texts are not modelled, only what they are made of:
  each constructor stands for one \<open>self.log\<close> or \<open>print\<close> call of the source.
\<close>

datatype message =
    Starting_deep_scan path
  | Drive_not_accessible path
  | Phase_1_scanning
  | Phase_1_complete nat
  | Admin_privileges_detected
  | No_admin_privileges
  | Error_during_deep_scan exn
  | Recovered string
  | Recovery_error exn
  | No_scan_results
  | Recover_all_prompt nat
  | Recovering_all_files
  | This_may_take_a_while
  | Progress nat nat
  | Successfully_recovered nat nat
  | Location path

text \<open>
  The world outside the file system: what \<open>print\<close> raises for a text, if anything (a
  \<open>UnicodeEncodeError\<close> when the encoding of the standard output lacks a character, an
  \<open>OSError\<close> when the output is closed); the log entry of a message (time stamp, level and
  text) encoded in UTF-8, or the \<open>UnicodeEncodeError\<close> that raises (a file name that is
  not valid UTF-8 reaches Python with surrogates in it); \<open>datetime.fromtimestamp\<close> on
  this platform and in this time zone, the \<open>datetime\<close> being represented by a time stamp;
  the clock in seconds, read when a file is written; the clock formatted as \<open>%Y%m%d_%H%M%S\<close> when the loop of \<open>main\<close> recovers
  its \<open>i\<close>-th file; whether the user is privileged (\<open>check_admin_privileges\<close>, which
  cannot raise); the working directory.
\<close>

record env =
  print_error :: "message \<Rightarrow> exn option"
  utf8 :: "message \<Rightarrow> exn + bytes"
  fromtimestamp :: "int \<Rightarrow> exn + int"
  now :: int
  time_stamp :: "nat \<Rightarrow> string"
  is_admin :: bool
  cwd :: path

text \<open>
  \<open>self.recovery_path = Path("forensic_recovery")\<close> and
  \<open>self.log_file = self.recovery_path / "forensic_log.txt"\<close>.
\<close>

definition recovery_path :: "env \<Rightarrow> path" where
  "recovery_path e = cwd e @ [''forensic_recovery'']"

definition log_file :: "env \<Rightarrow> path" where
  "log_file e = recovery_path e @ [''forensic_log.txt'']"

text \<open>
  \<open>self.log(message, level)\<close>: prints the entry, opens the log file for appending, encodes
  the entry and writes it. The result is the exception raised, if any, and the file system
  left behind.
\<close>

definition log :: "env \<Rightarrow> node \<Rightarrow> message \<Rightarrow> exn option \<times> node" where
  "log e fs m =
     (case print_error e m of
        Some x \<Rightarrow> (Some x, fs)
      | None \<Rightarrow>
          (case alter (open_a (now e)) fs (log_file e) of
             Inl x \<Rightarrow> (Some x, fs)
           | Inr fs1 \<Rightarrow>
               (case utf8 e m of
                  Inl x \<Rightarrow> (Some x, fs1)
                | Inr entry \<Rightarrow>
                    (case alter (write_a entry (now e)) fs1 (log_file e) of
                       Inl x \<Rightarrow> (Some x, fs1)
                     | Inr fs2 \<Rightarrow> (None, fs2)))))"

text \<open>
  \<open>datetime.fromtimestamp(t)\<close> for whole seconds as CPython 3.11 computes it on Linux
  with a 64-bit \<open>time_t\<close> where the local time is UTC: a \<open>datetime\<close> holds the years 1
  to 9999 (the first day of the year 1 is lost to the search for a repeated hour); outside
  them the call raises \<open>ValueError\<close>, \<open>OSError\<close> where the year does not fit the
  \<open>int\<close> of \<open>localtime\<close>, \<open>OverflowError\<close> beyond \<open>time_t\<close>.
\<close>

definition fromtimestamp_utc :: "int \<Rightarrow> exn + int" where
  "fromtimestamp_utc t =
     (if t < - 9223372036854775808 \<or> 9223372036854775808 \<le> t then Inl OverflowError
      else if t < - 67768040609740800 \<or> 67768036191676800 \<le> t then Inl OSError
      else if t < - 62135510400 \<or> 253402300800 \<le> t then Inl ValueError
      else Inr t)"

section \<open>Tree mode: \<open>scan_drive_deep\<close>\<close>

text \<open>The dictionary appended to \<open>found_files\<close>.\<close>

record found_file =
  f_path :: path
  f_name :: string
  f_size :: nat
  f_type :: string
  f_modified :: int
  f_source :: string
  f_recoverable :: bool

text \<open>
  The body of the inner \<open>try\<close> for an item that is a file: \<open>stat\<close>, \<open>open\<close>, read 32
  bytes, detect, filter by the requested types (\<open>None\<close>: no filter), then build the
  dictionary, which converts the modification time.
\<close>

definition scan_file ::
  "env \<Rightarrow> registry \<Rightarrow> node \<Rightarrow> string list option \<Rightarrow> path \<Rightarrow> exn + found_file option"
  where
  "scan_file e reg fs file_types item =
     (case lookup fs item of
        Inl x \<Rightarrow> Inl x
      | Inr (Dir listable writable searchable entries) \<Rightarrow> Inl IsADirectoryError
      | Inr (File readable writable mtime content) \<Rightarrow>
          if \<not> readable then Inl PermissionError
          else (let header = take 32 content;
                    file_type = detect_file_type reg header
                in if file_types = None \<or> file_type \<in> set (the file_types)
                   then (case fromtimestamp e mtime of
                           Inl x \<Rightarrow> Inl x
                         | Inr modified \<Rightarrow>
                             Inr (Some \<lparr>f_path = item, f_name = name_of item,
                                        f_size = length content, f_type = file_type,
                                        f_modified = modified, f_source = ''existing'',
                                        f_recoverable = True\<rparr>))
                   else Inr None))"

text \<open>
  The \<open>for item in drive.rglob('*')\<close> loop: the files found and the exception that ended
  the loop, if any. \<open>item.is_file()\<close> stands outside the inner \<open>try\<close>: what it raises leaves
  the loop. Of what the inner \<open>try\<close> raises, an \<open>OSError\<close> is passed over and anything else
  leaves the loop.
\<close>

fun scan_items ::
  "env \<Rightarrow> registry \<Rightarrow> node \<Rightarrow> string list option \<Rightarrow> path list \<Rightarrow> found_file list \<Rightarrow>
     found_file list \<times> exn option"
  where
  "scan_items e reg fs file_types [] found_files = (found_files, None)"
| "scan_items e reg fs file_types (item # items) found_files =
     (case is_file fs item of
        Inl x \<Rightarrow> (found_files, Some x)
      | Inr False \<Rightarrow> scan_items e reg fs file_types items found_files
      | Inr True \<Rightarrow>
          (case scan_file e reg fs file_types item of
             Inl x \<Rightarrow>
               if is_OSError x then scan_items e reg fs file_types items found_files
               else (found_files, Some x)
           | Inr None \<Rightarrow> scan_items e reg fs file_types items found_files
           | Inr (Some f) \<Rightarrow> scan_items e reg fs file_types items (found_files @ [f])))"

text \<open>
  The \<open>try\<close> block of \<open>scan_drive_deep\<close>: the files found, the exception that ended it, if
  any, and the file system left behind (the log file grows).
\<close>

definition scan_try ::
  "env \<Rightarrow> registry \<Rightarrow> node \<Rightarrow> path \<Rightarrow> string list option \<Rightarrow>
     found_file list \<times> exn option \<times> node" where
  "scan_try e reg fs drive_path file_types =
     (case path_exists fs drive_path of
        Inl x \<Rightarrow> ([], Some x, fs)
      | Inr False \<Rightarrow>
          (case log e fs (Drive_not_accessible drive_path) of
             (r, fs1) \<Rightarrow> ([], r, fs1))
      | Inr True \<Rightarrow>
          (case log e fs Phase_1_scanning of
             (Some x, fs1) \<Rightarrow> ([], Some x, fs1)
           | (None, fs1) \<Rightarrow>
               (case rglob_at fs1 drive_path of
                  Inl x \<Rightarrow> ([], Some x, fs1)
                | Inr items \<Rightarrow>
                    (case scan_items e reg fs1 file_types items [] of
                       (found_files, Some x) \<Rightarrow> (found_files, Some x, fs1)
                     | (found_files, None) \<Rightarrow>
                         (case log e fs1 (Phase_1_complete (length found_files)) of
                            (Some x, fs2) \<Rightarrow> (found_files, Some x, fs2)
                          | (None, fs2) \<Rightarrow>
                              (case log e fs2 (if is_admin e then Admin_privileges_detected
                                               else No_admin_privileges) of
                                 (r, fs3) \<Rightarrow> (found_files, r, fs3)))))))"

text \<open>
  \<open>scan_drive_deep(drive_path, file_types)\<close>: the first \<open>self.log\<close> stands before the
  \<open>try\<close>; \<open>except Exception\<close> logs and lets the function return what it has found so far.
  \<open>Inl\<close>: the function raises.
\<close>

definition scan_drive_deep ::
  "env \<Rightarrow> registry \<Rightarrow> node \<Rightarrow> path \<Rightarrow> string list option \<Rightarrow>
     (exn + found_file list) \<times> node" where
  "scan_drive_deep e reg fs drive_path file_types =
     (case log e fs (Starting_deep_scan drive_path) of
        (Some x, fs0) \<Rightarrow> (Inl x, fs0)
      | (None, fs0) \<Rightarrow>
          (case scan_try e reg fs0 drive_path file_types of
             (found_files, None, fs1) \<Rightarrow> (Inr found_files, fs1)
           | (found_files, Some x, fs1) \<Rightarrow>
               (case log e fs1 (Error_during_deep_scan x) of
                  (Some y, fs2) \<Rightarrow> (Inl y, fs2)
                | (None, fs2) \<Rightarrow> (Inr found_files, fs2))))"

section \<open>Tree mode: \<open>recover_file\<close> and the catalog of recovered files\<close>

text \<open>The dictionary returned on success, and the two kinds of failure.\<close>

record recovered =
  r_source :: path
  r_destination :: path
  r_hash :: string
  r_size :: nat

datatype failure = File_not_found | Raised exn

text \<open>
  The \<open>try\<close> block of \<open>recover_file\<close> at the time \<open>timestamp\<close>: the dictionary returned or
  the exception raised, and the file system left behind. The size is read when the
  dictionary is built, after the log entry is written.
\<close>

definition recover_try ::
  "env \<Rightarrow> node \<Rightarrow> found_file \<Rightarrow> path \<Rightarrow> string \<Rightarrow> (exn + failure + recovered) \<times> node" where
  "recover_try e fs file_info output_dir timestamp =
     (let source = f_path file_info in
      case path_exists fs source of
        Inl x \<Rightarrow> (Inl x, fs)
      | Inr False \<Rightarrow> (Inr (Inl File_not_found), fs)
      | Inr True \<Rightarrow>
          (let recovery_folder = output_dir @ [timestamp] in
           case mkdir_p fs recovery_folder of
             Inl x \<Rightarrow> (Inl x, fs)
           | Inr fs1 \<Rightarrow>
               (let dest = (if source = [] then recovery_folder
                            else recovery_folder @ [name_of source]) in
                case copy2 fs1 source dest of
                  Inl x \<Rightarrow> (Inl x, fs1)
                | Inr fs2 \<Rightarrow>
                    (case read_file fs2 dest of
                       Inl x \<Rightarrow> (Inl x, fs2)
                     | Inr content \<Rightarrow>
                         (case log e fs2 (Recovered (name_of source)) of
                            (Some x, fs3) \<Rightarrow> (Inl x, fs3)
                          | (None, fs3) \<Rightarrow>
                              (case lookup fs3 dest of
                                 Inl x \<Rightarrow> (Inl x, fs3)
                               | Inr n \<Rightarrow>
                                   (Inr (Inr \<lparr>r_source = source, r_destination = dest,
                                              r_hash = sha256_hexdigest content,
                                              r_size = st_size n\<rparr>), fs3)))))))"

text \<open>
  \<open>recover_file(file_info, output_dir)\<close>, \<open>output_dir\<close> being \<open>None\<close> by default:
  \<open>except Exception\<close> logs and returns a failure. \<open>Inl\<close>: the function raises.
\<close>

definition recover_file ::
  "env \<Rightarrow> node \<Rightarrow> found_file \<Rightarrow> path option \<Rightarrow> string \<Rightarrow>
     (exn + failure + recovered) \<times> node" where
  "recover_file e fs file_info output_dir timestamp =
     (case recover_try e fs file_info
             (case output_dir of None \<Rightarrow> recovery_path e | Some d \<Rightarrow> d) timestamp of
        (Inr result, fs1) \<Rightarrow> (Inr result, fs1)
      | (Inl x, fs1) \<Rightarrow>
          (case log e fs1 (Recovery_error x) of
             (Some y, fs2) \<Rightarrow> (Inl y, fs2)
           | (None, fs2) \<Rightarrow> (Inr (Inl (Raised x)), fs2)))"

text \<open>
  The loop of menu choice 6 of \<open>main\<close>, from its \<open>idx\<close>-th round on: the progress is
  printed, the item recovered, a successful result appended to \<open>recovered_files\<close>. The
  result is the exception that ended the loop, if any, the catalog and the file system.
\<close>

fun recover_loop ::
  "env \<Rightarrow> node \<Rightarrow> nat \<Rightarrow> nat \<Rightarrow> found_file list \<Rightarrow> recovered list \<Rightarrow>
     (exn option \<times> recovered list) \<times> node"
  where
  "recover_loop e fs idx n [] recovered_files = ((None, recovered_files), fs)"
| "recover_loop e fs idx n (item # items) recovered_files =
     (case print_error e (Progress idx n) of
        Some x \<Rightarrow> ((Some x, recovered_files), fs)
      | None \<Rightarrow>
          (case recover_file e fs item None (time_stamp e idx) of
             (Inl x, fs1) \<Rightarrow> ((Some x, recovered_files), fs1)
           | (Inr (Inl failed), fs1) \<Rightarrow>
               recover_loop e fs1 (Suc idx) n items recovered_files
           | (Inr (Inr result), fs1) \<Rightarrow>
               recover_loop e fs1 (Suc idx) n items (recovered_files @ [result])))"

text \<open>
  Menu choice 6 of \<open>main\<close>, \<open>confirm\<close> being the answer of the user: the catalog
  \<open>recovered_files\<close> after it, with the exception that ended the program, if any.
\<close>

definition recover_all ::
  "env \<Rightarrow> node \<Rightarrow> found_file list \<Rightarrow> string \<Rightarrow> recovered list \<Rightarrow>
     (exn option \<times> recovered list) \<times> node" where
  "recover_all e fs scan_results confirm recovered_files =
     (if scan_results = [] then ((print_error e No_scan_results, recovered_files), fs)
      else case print_error e (Recover_all_prompt (length scan_results)) of
             Some x \<Rightarrow> ((Some x, recovered_files), fs)
           | None \<Rightarrow>
               if confirm \<noteq> ''y'' then ((None, recovered_files), fs)
               else (case print_error e Recovering_all_files of
                       Some x \<Rightarrow> ((Some x, recovered_files), fs)
                     | None \<Rightarrow>
                         (case print_error e This_may_take_a_while of
                            Some x \<Rightarrow> ((Some x, recovered_files), fs)
                          | None \<Rightarrow>
                              (case recover_loop e fs 1 (length scan_results) scan_results
                                      recovered_files of
                                 ((Some x, catalog), fs1) \<Rightarrow> ((Some x, catalog), fs1)
                               | ((None, catalog), fs1) \<Rightarrow>
                                   (case print_error e
                                           (Successfully_recovered
                                              (length catalog - length recovered_files)
                                              (length scan_results)) of
                                      Some x \<Rightarrow> ((Some x, catalog), fs1)
                                    | None \<Rightarrow>
                                        ((print_error e (Location (recovery_path e)),
                                          catalog), fs1))))))"

section \<open>Tree mode: conditions on the environment\<close>





section \<open>Buffer mode: what the scan returns\<close>

subsection \<open>\<open>bytes.find\<close>\<close>

lemma find_at_Some:
  "find_at sub xs i = Some p \<Longrightarrow> i \<le> p \<and> p - i \<le> length xs \<and> prefix sub (drop (p - i) xs)"
proof (induction xs arbitrary: i)
  case Nil
  then show ?case by (simp split: if_splits)
next
  case (Cons x xs)
  show ?case
  proof (cases "prefix sub (x # xs)")
    case True
    with Cons.prems show ?thesis by simp
  next
    case False
    with Cons.prems have "find_at sub xs (Suc i) = Some p" by simp
    from Cons.IH [OF this] have "Suc i \<le> p" "p - Suc i \<le> length xs" "prefix sub (drop (p - Suc i) xs)"
      by simp_all
    moreover from \<open>Suc i \<le> p\<close> have "p - i = Suc (p - Suc i)" by simp
    ultimately show ?thesis by simp
  qed
qed

lemma find_at_least:
  "find_at sub xs i = Some p \<Longrightarrow> k < p - i \<Longrightarrow> \<not> prefix sub (drop k xs)"
proof (induction xs arbitrary: i k)
  case Nil
  then show ?case by (simp split: if_splits)
next
  case (Cons x xs)
  show ?case
  proof (cases "prefix sub (x # xs)")
    case True
    with Cons.prems show ?thesis by simp
  next
    case False
    with Cons.prems have f: "find_at sub xs (Suc i) = Some p" by simp
    show ?thesis
    proof (cases k)
      case 0
      with False show ?thesis by simp
    next
      case (Suc k')
      with Cons.prems have "k' < p - Suc i" by simp
      from Cons.IH [OF f this] Suc show ?thesis by simp
    qed
  qed
qed

lemma find_at_None:
  "find_at sub xs i = None \<Longrightarrow> k \<le> length xs \<Longrightarrow> \<not> prefix sub (drop k xs)"
proof (induction xs arbitrary: i k)
  case Nil
  then show ?case by (simp split: if_splits)
next
  case (Cons x xs)
  from Cons.prems have np: "\<not> prefix sub (x # xs)" and f: "find_at sub xs (Suc i) = None"
    by (simp_all split: if_splits)
  show ?case
  proof (cases k)
    case 0
    with np show ?thesis by simp
  next
    case (Suc k')
    with Cons.prems have "k' \<le> length xs" by simp
    from Cons.IH [OF f this] Suc show ?thesis by simp
  qed
qed

lemma find_Some:
  assumes "find data sub start = Some p"
  shows "start \<le> p" and "p + length sub \<le> length data" and "take (length sub) (drop p data) = sub"
proof -
  from assms have le: "start \<le> length data" and f: "find_at sub (drop start data) start = Some p"
    by (simp_all add: find_def split: if_splits)
  note fs = find_at_Some [OF f]
  from fs have a: "start \<le> p" by blast
  from fs have b: "p - start \<le> length data - start" by simp
  from fs have c: "prefix sub (drop (p - start) (drop start data))" by blast
  from a c have pre: "prefix sub (drop p data)" by (simp add: le_add_diff_inverse2)
  show "start \<le> p" by (rule a)
  from pre have "length sub \<le> length (drop p data)" by (rule prefix_length_le)
  moreover from a b le have "p \<le> length data" by simp
  ultimately show "p + length sub \<le> length data" by simp
  from pre show "take (length sub) (drop p data) = sub"
    by (auto simp: prefix_def)
qed

lemma find_least:
  assumes "find data sub start = Some p" and "start \<le> q" and "q < p"
  shows "take (length sub) (drop q data) \<noteq> sub"
proof -
  from assms(1) have f: "find_at sub (drop start data) start = Some p"
    by (simp add: find_def split: if_splits)
  from assms have "q - start < p - start" by simp
  from find_at_least [OF f this] assms(2) have "\<not> prefix sub (drop q data)" by simp
  then show ?thesis by (metis take_is_prefix)
qed

lemma find_None:
  assumes "find data sub start = None" and "start \<le> q" and "q + length sub \<le> length data"
  shows "take (length sub) (drop q data) \<noteq> sub"
proof -
  from assms have f: "find_at sub (drop start data) start = None"
    by (simp add: find_def split: if_splits)
  from assms have "q - start \<le> length (drop start data)" by simp
  from find_at_None [OF f this] assms(2) have "\<not> prefix sub (drop q data)" by simp
  then show ?thesis by (metis take_is_prefix)
qed

subsection \<open>The hits of one pattern\<close>

text \<open>
  A proof device, not part of the program: the offsets that the loop of one pattern reports
  from \<open>pos\<close> on. For a non-empty pattern the loop returns exactly these, in this
  order.
\<close>

function greedy :: "bytes \<Rightarrow> bytes \<Rightarrow> nat \<Rightarrow> nat list" where
  "greedy data sig pos =
     (if sig = [] then []
      else case find data sig pos of
             None \<Rightarrow> []
           | Some p \<Rightarrow> p # greedy data sig (p + length sig))"
  by pat_completeness auto
termination
proof (relation "measure (\<lambda>(data, sig, pos). Suc (length data) - pos)")
  show "wf (measure (\<lambda>(data, sig, pos). Suc (length data) - pos))" by simp
next
  fix data sig :: bytes and pos p :: nat
  assume ne: "sig \<noteq> []" and f: "find data sig pos = Some p"
  from find_Some [OF f] have "pos \<le> p" "p + length sig \<le> length data" by simp_all
  moreover from ne have "0 < length sig" by simp
  ultimately have "Suc (length data) - (p + length sig) < Suc (length data) - pos"
    by arith
  then show "((data, sig, p + length sig), (data, sig, pos))
      \<in> measure (\<lambda>(data, sig, pos). Suc (length data) - pos)"
    by simp
qed

declare greedy.simps [simp del]

definition hit :: "string \<Rightarrow> bytes \<Rightarrow> nat \<Rightarrow> carved" where
  "hit file_type sig p = \<lparr>type = file_type, offset = p, signature = hex sig\<rparr>"

lemma carve_while_greedy:
  "sig \<noteq> [] \<Longrightarrow>
   carve_while data file_type sig pos acc = Some (acc @ map (hit file_type sig) (greedy data sig pos))"
proof (induction data sig pos arbitrary: acc rule: greedy.induct)
  case (1 data sig pos)
  show ?case
  proof (cases "find data sig pos")
    case None
    with "1.prems" show ?thesis
      by (subst carve_while.simps, subst greedy.simps) simp
  next
    case (Some p)
    from "1.IH" [OF "1.prems" Some "1.prems"]
    have "carve_while data file_type sig (p + length sig) (acc @ [hit file_type sig p]) =
      Some ((acc @ [hit file_type sig p]) @ map (hit file_type sig) (greedy data sig (p + length sig)))" .
    with Some "1.prems" show ?thesis
      by (subst carve_while.simps, subst greedy.simps) (simp add: hit_def)
  qed
qed

definition block :: "bytes \<Rightarrow> string \<times> bytes \<Rightarrow> carved list" where
  "block data r = map (hit (fst r) (snd r)) (greedy data (snd r) 0)"

lemma carve_sigs_blocks:
  "\<forall>sig \<in> set signatures. sig \<noteq> [] \<Longrightarrow>
   carve_sigs data file_type signatures acc =
     Some (acc @ concat (map (\<lambda>sig. block data (file_type, sig)) signatures))"
proof (induction signatures arbitrary: acc)
  case Nil
  then show ?case by simp
next
  case (Cons sig signatures)
  then show ?case by (simp add: carve_while_greedy block_def)
qed

lemma registrations_Cons:
  "registrations ((file_type, signatures) # rest) = map (Pair file_type) signatures @ registrations rest"
  by (simp add: registrations_def)

lemma nonempty_patterns_Cons:
  "nonempty_patterns ((file_type, signatures) # rest) =
     ((\<forall>sig \<in> set signatures. sig \<noteq> []) \<and> nonempty_patterns rest)"
  by (simp add: nonempty_patterns_def registrations_Cons ball_Un)

lemma carve_types_blocks:
  "nonempty_patterns reg \<Longrightarrow>
   carve_types data reg acc = Some (acc @ concat (map (block data) (registrations reg)))"
proof (induction reg arbitrary: acc)
  case Nil
  then show ?case by (simp add: registrations_def)
next
  case (Cons a reg)
  obtain file_type signatures where a: "a = (file_type, signatures)" by (cases a)
  from Cons.prems a have ne: "\<forall>sig \<in> set signatures. sig \<noteq> []" and rest: "nonempty_patterns reg"
    by (simp_all add: nonempty_patterns_Cons)
  have "concat (map (\<lambda>sig. block data (file_type, sig)) signatures) =
        concat (map (block data) (map (Pair file_type) signatures))"
    by (simp add: comp_def)
  with a ne Cons.IH [OF rest] show ?case
    by (simp add: carve_sigs_blocks registrations_Cons)
qed

lemma carve_files_from_data_blocks:
  "nonempty_patterns reg \<Longrightarrow>
   carve_files_from_data reg data = Some (concat (map (block data) (registrations reg)))"
  by (simp add: carve_files_from_data_def carve_types_blocks)

lemma greedy_sound:
  "p \<in> set (greedy data sig pos) \<Longrightarrow>
   pos \<le> p \<and> p + length sig \<le> length data \<and> take (length sig) (drop p data) = sig"
proof (induction data sig pos rule: greedy.induct)
  case (1 data sig pos)
  show ?case
  proof (cases "sig = []")
    case True
    with "1.prems" show ?thesis by (simp add: greedy.simps)
  next
    case ne: False
    show ?thesis
    proof (cases "find data sig pos")
      case None
      with "1.prems" ne show ?thesis by (simp add: greedy.simps)
    next
      case (Some q)
      note fq = find_Some [OF Some]
      from "1.prems" ne Some have "p = q \<or> p \<in> set (greedy data sig (q + length sig))"
        by (subst (asm) greedy.simps) simp
      then show ?thesis
      proof
        assume "p = q"
        with fq show ?thesis by simp
      next
        assume "p \<in> set (greedy data sig (q + length sig))"
        from "1.IH" [OF ne Some this] fq(1) show ?thesis by simp
      qed
    qed
  qed
qed

lemma greedy_sorted:
  "sorted_wrt (\<lambda>a b. a + length sig \<le> b) (greedy data sig pos)"
proof (induction data sig pos rule: greedy.induct)
  case (1 data sig pos)
  show ?case
  proof (cases "sig = []")
    case True
    then show ?thesis by (simp add: greedy.simps)
  next
    case ne: False
    show ?thesis
    proof (cases "find data sig pos")
      case None
      with ne show ?thesis by (simp add: greedy.simps)
    next
      case (Some q)
      have "\<forall>b \<in> set (greedy data sig (q + length sig)). q + length sig \<le> b"
        using greedy_sound by blast
      with "1.IH" [OF ne Some] ne Some show ?thesis
        by (subst greedy.simps) simp
    qed
  qed
qed

lemma greedy_covers:
  "sig \<noteq> [] \<Longrightarrow> pos \<le> q \<Longrightarrow> q + length sig \<le> length data \<Longrightarrow>
   take (length sig) (drop q data) = sig \<Longrightarrow>
   \<exists>p \<in> set (greedy data sig pos). p \<le> q \<and> q < p + length sig"
proof (induction data sig pos rule: greedy.induct)
  case (1 data sig pos)
  note ne = \<open>sig \<noteq> []\<close>
  show ?case
  proof (cases "find data sig pos")
    case None
    from find_None [OF None "1.prems"(2,3)] "1.prems"(4) show ?thesis by simp
  next
    case (Some p)
    have g: "greedy data sig pos = p # greedy data sig (p + length sig)"
      using ne Some by (subst greedy.simps) simp
    have "p \<le> q"
    proof (rule ccontr)
      assume "\<not> p \<le> q"
      then have "q < p" by simp
      from find_least [OF Some "1.prems"(2) this] "1.prems"(4) show False by simp
    qed
    show ?thesis
    proof (cases "q < p + length sig")
      case True
      with \<open>p \<le> q\<close> g show ?thesis by simp
    next
      case False
      then have "p + length sig \<le> q" by simp
      from "1.IH" [OF ne Some ne this "1.prems"(3,4)] g show ?thesis by auto
    qed
  qed
qed

lemma greedy_first:
  "sig \<noteq> [] \<Longrightarrow> find data sig 0 = Some p \<Longrightarrow> p \<in> set (greedy data sig 0)"
  by (subst greedy.simps) simp

subsection \<open>\<open>bytes.hex\<close> is injective\<close>

lemma hex_digit_inj:
  assumes "m < 16" and "n < 16" and "hex_digit m = hex_digit n"
  shows "m = n"
proof -
  have d: "distinct ''0123456789abcdef''" by simp
  have l: "length ''0123456789abcdef'' = 16" by simp
  from assms have "''0123456789abcdef'' ! m = ''0123456789abcdef'' ! n"
    by (simp add: hex_digit_def)
  with nth_eq_iff_index_eq [OF d, of m n] assms(1,2) l show ?thesis by simp
qed

lemma hex_byte_inj:
  fixes a b :: byte
  assumes "hex_digit (unat a div 16) = hex_digit (unat b div 16)"
    and "hex_digit (unat a mod 16) = hex_digit (unat b mod 16)"
  shows "a = b"
proof -
  have la: "unat a < 256" and lb: "unat b < 256"
    using unsigned_less [of a, where ?'a = nat] unsigned_less [of b, where ?'a = nat] by simp_all
  then have "unat a div 16 < 16" "unat b div 16 < 16" by simp_all
  with assms(1) have d: "unat a div 16 = unat b div 16" by (rule hex_digit_inj [rotated 2])
  have "unat a mod 16 < 16" "unat b mod 16 < 16" by simp_all
  with assms(2) have m: "unat a mod 16 = unat b mod 16" by (rule hex_digit_inj [rotated 2])
  from d m have "unat a = unat b" by (metis div_mult_mod_eq)
  then show ?thesis by (simp add: word_unat_eq_iff)
qed

lemma hex_Cons: "hex (b # bs) = hex_digit (unat b div 16) # hex_digit (unat b mod 16) # hex bs"
  by (simp add: hex_def)

lemma hex_Nil: "hex [] = []"
  by (simp add: hex_def)

lemma hex_inj: "hex xs = hex ys \<Longrightarrow> xs = ys"
proof (induction xs arbitrary: ys)
  case Nil
  then show ?case by (cases ys) (simp_all add: hex_Nil hex_Cons)
next
  case (Cons x xs)
  then obtain y ys' where ys: "ys = y # ys'" by (cases ys) (simp_all add: hex_Nil hex_Cons)
  with Cons.prems have "x = y" and "hex xs = hex ys'"
    by (auto simp: hex_Cons intro: hex_byte_inj)
  with Cons.IH ys show ?case by simp
qed

lemma length_hex: "length (hex bs) = 2 * length bs"
  by (induction bs) (simp_all add: hex_Nil hex_Cons)

lemma block_entry:
  assumes "c \<in> set (block data (file_type, sig))"
  shows "type c = file_type" and "signature c = hex sig"
    and "offset c + length sig \<le> length data"
    and "take (length sig) (drop (offset c) data) = sig"
proof -
  from assms obtain p where p: "p \<in> set (greedy data sig 0)" and c: "c = hit file_type sig p"
    by (auto simp: block_def)
  from c show "type c = file_type" "signature c = hex sig" by (simp_all add: hit_def)
  from greedy_sound [OF p] c show "offset c + length sig \<le> length data"
    and "take (length sig) (drop (offset c) data) = sig" by (simp_all add: hit_def)
qed

lemma block_offsets: "map offset (block data (file_type, sig)) = greedy data sig 0"
  by (simp add: block_def hit_def comp_def)

lemma filter_block:
  "filter (\<lambda>c. type c = file_type \<and> signature c = hex sig) (block data (t, s)) =
     (if t = file_type \<and> s = sig then block data (t, s) else [])"
proof (cases "t = file_type \<and> s = sig")
  case True
  then have "\<forall>c \<in> set (block data (t, s)). type c = file_type \<and> signature c = hex sig"
    using block_entry(1,2) by blast
  with True show ?thesis by simp
next
  case False
  have "\<forall>c \<in> set (block data (t, s)). \<not> (type c = file_type \<and> signature c = hex sig)"
  proof
    fix c assume "c \<in> set (block data (t, s))"
    then have "type c = t" "signature c = hex s" by (rule block_entry)+
    with False show "\<not> (type c = file_type \<and> signature c = hex sig)"
      using hex_inj by auto
  qed
  then have "filter (\<lambda>c. type c = file_type \<and> signature c = hex sig) (block data (t, s)) = []"
    by (simp add: filter_empty_conv)
  with False show ?thesis by auto
qed

lemma filter_blocks:
  "distinct rs \<Longrightarrow> r \<in> set rs \<Longrightarrow>
   filter (\<lambda>c. type c = fst r \<and> signature c = hex (snd r)) (concat (map (block data) rs)) =
     block data r"
proof (induction rs)
  case Nil
  then show ?case by simp
next
  case (Cons a rs)
  obtain t s where a: "a = (t, s)" by (cases a)
  obtain file_type sig where r: "r = (file_type, sig)" by (cases r)
  have no: "r \<notin> set rs \<Longrightarrow>
    filter (\<lambda>c. type c = fst r \<and> signature c = hex (snd r)) (concat (map (block data) rs)) = []"
  proof -
    assume nin: "r \<notin> set rs"
    have "\<forall>x \<in> set rs. filter (\<lambda>c. type c = fst r \<and> signature c = hex (snd r)) (block data x) = []"
    proof
      fix x assume x: "x \<in> set rs"
      obtain t' s' where x': "x = (t', s')" by (cases x)
      with x nin r have "\<not> (t' = file_type \<and> s' = sig)" by auto
      with x' r show "filter (\<lambda>c. type c = fst r \<and> signature c = hex (snd r)) (block data x) = []"
        by (auto simp: filter_block)
    qed
    then show ?thesis by (induction rs) simp_all
  qed
  show ?case
  proof (cases "a = r")
    case True
    with Cons.prems have "r \<notin> set rs" by simp
    from no [OF this] True a r show ?thesis by (simp add: filter_block)
  next
    case False
    with Cons.prems have "r \<in> set rs" "distinct rs" by simp_all
    from Cons.IH [OF this(2,1)] False a r show ?thesis by (auto simp: filter_block)
  qed
qed

subsection \<open>The Android registry\<close>

lemma android_nonempty: "nonempty_patterns android_file_signatures"
  by (simp add: nonempty_patterns_def registrations_def android_file_signatures_def)

lemma android_distinct: "distinct (registrations android_file_signatures)"
  by (simp add: registrations_def android_file_signatures_def)

subsection \<open>Evaluating the scan on long buffers\<close>

lemma find_at_missing_byte:
  "b \<in> set sub \<Longrightarrow> b \<notin> set xs \<Longrightarrow> find_at sub xs i = None"
proof (induction xs arbitrary: i)
  case Nil
  then show ?case by auto
next
  case (Cons x xs)
  have "\<not> prefix sub (x # xs)"
  proof
    assume "prefix sub (x # xs)"
    then have "set sub \<subseteq> set (x # xs)" by (rule set_mono_prefix)
    with Cons.prems show False by auto
  qed
  with Cons show ?case by simp
qed

lemma find_missing_byte:
  "b \<in> set sub \<Longrightarrow> b \<notin> set (drop start data) \<Longrightarrow> find data sub start = None"
  by (simp add: find_def find_at_missing_byte)

lemma greedy_missing_byte:
  "b \<in> set sig \<Longrightarrow> b \<notin> set (drop pos data) \<Longrightarrow> greedy data sig pos = []"
  by (subst greedy.simps) (simp add: find_missing_byte)

lemma find_at_skip:
  "sub \<noteq> [] \<Longrightarrow> hd sub \<noteq> z \<Longrightarrow>
   find_at sub (replicate n z @ rest) i = find_at sub rest (i + n)"
proof (induction n arbitrary: i)
  case 0
  then show ?case by simp
next
  case (Suc n)
  from Suc.prems have "\<not> prefix sub (z # replicate n z @ rest)"
    by (cases sub) auto
  with Suc show ?case by simp
qed

lemma greedy_once:
  "sig \<noteq> [] \<Longrightarrow> find data sig pos = Some p \<Longrightarrow> greedy data sig (p + length sig) = [] \<Longrightarrow>
   greedy data sig pos = [p]"
  by (subst greedy.simps) simp

text \<open>
  A family of test buffers: \<open>n\<close> zero bytes, the JPEG pattern of the Android registry,
  \<open>m\<close> zero bytes, its PNG pattern, \<open>k\<close> zero bytes.
\<close>

definition two_hits :: "nat \<Rightarrow> nat \<Rightarrow> nat \<Rightarrow> bytes" where
  "two_hits n m k =
     replicate n 0 @ [0xFF, 0xD8, 0xFF] @ replicate m 0 @ [0x89, 0x50, 0x4E, 0x47] @ replicate k 0"

lemma set_two_hits: "set (two_hits n m k) \<subseteq> {0, 0xFF, 0xD8, 0x89, 0x50, 0x4E, 0x47}"
  by (auto simp: two_hits_def)

lemma none_in_two_hits:
  "b \<in> set sig \<Longrightarrow> b \<notin> {0, 0xFF, 0xD8, 0x89, 0x50, 0x4E, 0x47 :: byte} \<Longrightarrow>
   greedy (two_hits n m k) sig 0 = []"
proof (rule greedy_missing_byte)
  assume "b \<in> set sig" then show "b \<in> set sig" .
  assume "b \<notin> {0, 0xFF, 0xD8, 0x89, 0x50, 0x4E, 0x47 :: byte}"
  with set_two_hits [of n m k] show "b \<notin> set (drop 0 (two_hits n m k))" by auto
qed

lemma jpg_in_two_hits: "greedy (two_hits n m k) [0xFF, 0xD8, 0xFF] 0 = [n]"
proof (rule greedy_once)
  show "[0xFF, 0xD8, 0xFF :: byte] \<noteq> []" by simp
  show "find (two_hits n m k) [0xFF, 0xD8, 0xFF] 0 = Some n"
    by (simp add: find_def two_hits_def find_at_skip)
  have "(0xD8 :: byte) \<notin> set (drop (n + length [0xFF, 0xD8, 0xFF :: byte]) (two_hits n m k))"
    by (simp add: two_hits_def)
  then show "greedy (two_hits n m k) [0xFF, 0xD8, 0xFF] (n + length [0xFF, 0xD8, 0xFF :: byte]) = []"
    by (intro greedy_missing_byte [where b = "0xD8"]) simp_all
qed

lemma png_in_two_hits: "greedy (two_hits n m k) [0x89, 0x50, 0x4E, 0x47] 0 = [n + 3 + m]"
proof (rule greedy_once)
  show "[0x89, 0x50, 0x4E, 0x47 :: byte] \<noteq> []" by simp
  have "find_at [0x89, 0x50, 0x4E, 0x47] (two_hits n m k) 0 =
        find_at [0x89, 0x50, 0x4E, 0x47]
          ([0xFF, 0xD8, 0xFF] @ replicate m 0 @ [0x89, 0x50, 0x4E, 0x47] @ replicate k 0) (0 + n)"
    unfolding two_hits_def by (rule find_at_skip) simp_all
  also have "\<dots> = find_at [0x89, 0x50, 0x4E, 0x47]
          (replicate m 0 @ [0x89, 0x50, 0x4E, 0x47] @ replicate k 0) (n + 3)"
    by (simp add: numeral_3_eq_3)
  also have "\<dots> = find_at [0x89, 0x50, 0x4E, 0x47]
          ([0x89, 0x50, 0x4E, 0x47] @ replicate k 0) (n + 3 + m)"
    by (rule find_at_skip) simp_all
  also have "\<dots> = Some (n + 3 + m)" by simp
  finally show "find (two_hits n m k) [0x89, 0x50, 0x4E, 0x47] 0 = Some (n + 3 + m)"
    by (simp add: find_def)
  have "drop (n + 3 + m + 4) (two_hits n m k) = drop 4 (drop m (drop 3 (drop n (two_hits n m k))))"
    by (simp add: ac_simps)
  also have "\<dots> = replicate k 0"
    by (simp add: two_hits_def del: drop_drop)
  finally have "(0x89 :: byte) \<notin> set (drop (n + 3 + m + length [0x89, 0x50, 0x4E, 0x47 :: byte]) (two_hits n m k))"
    by simp
  then show "greedy (two_hits n m k) [0x89, 0x50, 0x4E, 0x47]
      (n + 3 + m + length [0x89, 0x50, 0x4E, 0x47 :: byte]) = []"
    by (intro greedy_missing_byte [where b = "0x89"]) simp_all
qed

lemma carve_two_hits:
  "carve_files_from_data android_file_signatures (two_hits n m k) =
     Some [\<lparr>type = ''jpg'', offset = n, signature = ''ffd8ff''\<rparr>,
           \<lparr>type = ''png'', offset = n + 3 + m, signature = ''89504e47''\<rparr>]"
proof -
  have hj: "hex [0xFF, 0xD8, 0xFF] = ''ffd8ff''" by code_simp
  have hp: "hex [0x89, 0x50, 0x4E, 0x47] = ''89504e47''" by code_simp
  have gif: "greedy (two_hits n m k) [0x47, 0x49, 0x46, 0x38] 0 = []"
    by (rule none_in_two_hits [where b = "0x49"]) simp_all
  have pdf: "greedy (two_hits n m k) [0x25, 0x50, 0x44, 0x46] 0 = []"
    by (rule none_in_two_hits [where b = "0x25"]) simp_all
  have zip: "greedy (two_hits n m k) [0x50, 0x4B, 0x03, 0x04] 0 = []"
    by (rule none_in_two_hits [where b = "0x4B"]) simp_all
  have mp4a: "greedy (two_hits n m k) [0x00, 0x00, 0x00, 0x18, 0x66, 0x74, 0x79, 0x70] 0 = []"
    by (rule none_in_two_hits [where b = "0x18"]) simp_all
  have mp4b: "greedy (two_hits n m k) [0x00, 0x00, 0x00, 0x1C, 0x66, 0x74, 0x79, 0x70] 0 = []"
    by (rule none_in_two_hits [where b = "0x1C"]) simp_all
  have mp3a: "greedy (two_hits n m k) [0x49, 0x44, 0x33] 0 = []"
    by (rule none_in_two_hits [where b = "0x49"]) simp_all
  have mp3b: "greedy (two_hits n m k) [0xFF, 0xFB] 0 = []"
    by (rule none_in_two_hits [where b = "0xFB"]) simp_all
  have doc: "greedy (two_hits n m k) [0xD0, 0xCF, 0x11, 0xE0] 0 = []"
    by (rule none_in_two_hits [where b = "0xD0"]) simp_all
  have sqlite: "greedy (two_hits n m k) [0x53, 0x51, 0x4C, 0x69, 0x74, 0x65, 0x20, 0x66,
                   0x6F, 0x72, 0x6D, 0x61, 0x74, 0x20, 0x33] 0 = []"
    by (rule none_in_two_hits [where b = "0x53"]) simp_all
  show ?thesis
    unfolding carve_files_from_data_blocks [OF android_nonempty]
    by (simp add: registrations_def android_file_signatures_def block_def hit_def
        jpg_in_two_hits png_in_two_hits gif pdf zip mp4a mp4b mp3a mp3b doc sqlite hj hp)
qed


section \<open>Tree mode: properties of the file system operations\<close>
































section \<open>SHA-256: a test vector\<close>

text \<open>
  The digest of the empty message, as FIPS 180-4 and \<open>hashlib\<close> give it: padding, message
  schedule and the 64 rounds are run on one block.
\<close>

lemma sha256_hexdigest_empty:
  "sha256_hexdigest [] = ''e3b0c44298fc1c149afbf4c8996fb92427ae41e4649b934ca495991b7852b855''"
  by code_simp


section \<open>Tree mode: the environment at work\<close>

text \<open>
  A file whose modification time lies past the year 9999 ends the scan: the \<open>ValueError\<close> of
  \<open>datetime.fromtimestamp\<close> is not an \<open>OSError\<close>, and the file listed after it is not
  found.
\<close>

lemma scan_drive_deep_ends_at_unconvertible_time:
  "fst (scan_drive_deep
     \<lparr>print_error = (\<lambda>m. None), utf8 = (\<lambda>m. Inr [0x0A]),
      fromtimestamp = fromtimestamp_utc, now = 1700000000,
      time_stamp = (\<lambda>i. ''20240101_120000''), is_admin = False, cwd = [''home'']\<rparr>
     universal_file_signatures
     (Dir True True True
        [(''home'', Dir True True True
            [(''forensic_recovery'', Dir True True True
                [(''forensic_log.txt'', File True True 0 [])])]),
         (''data'', Dir True True True
            [(''late.bin'', File True True 253402300800 [1, 2, 3]),
             (''b.bin'', File True True 0 [1, 2, 3])])])
     [''data''] None) = Inr []"
  by (simp add: scan_drive_deep_def scan_try_def log_def recovery_path_def log_file_def
      path_exists_def rglob_at_def is_file_def scan_file_def fromtimestamp_utc_def name_of_def
      detect_file_type_def)

text \<open>
  When the entry \<open>Recovered\<close> cannot be printed, \<open>recover_file\<close> has copied the file and
  returns a failure: menu choice 6 appends nothing to the catalog.
\<close>

lemma recover_all_appends_nothing_when_log_raises:
  "fst (recover_all
     \<lparr>print_error = (\<lambda>m. case m of Recovered name \<Rightarrow> Some UnicodeEncodeError | _ \<Rightarrow> None),
      utf8 = (\<lambda>m. Inr [0x0A]), fromtimestamp = fromtimestamp_utc, now = 1700000000,
      time_stamp = (\<lambda>i. ''20240101_120000''), is_admin = False, cwd = [''home'']\<rparr>
     (Dir True True True
        [(''home'', Dir True True True
            [(''forensic_recovery'', Dir True True True
                [(''forensic_log.txt'', File True True 0 [])])]),
         (''data'', Dir True True True [(''a.bin'', File True True 0 [1, 2, 3])])])
     [\<lparr>f_path = [''data'', ''a.bin''], f_name = ''a.bin'', f_size = 3, f_type = ''unknown'',
       f_modified = 0, f_source = ''existing'', f_recoverable = True\<rparr>]
     ''y'' []) = (None, []) \<and>
   read_file
     (snd (recover_all
        \<lparr>print_error = (\<lambda>m. case m of Recovered name \<Rightarrow> Some UnicodeEncodeError | _ \<Rightarrow> None),
         utf8 = (\<lambda>m. Inr [0x0A]), fromtimestamp = fromtimestamp_utc, now = 1700000000,
         time_stamp = (\<lambda>i. ''20240101_120000''), is_admin = False, cwd = [''home'']\<rparr>
        (Dir True True True
           [(''home'', Dir True True True
               [(''forensic_recovery'', Dir True True True
                   [(''forensic_log.txt'', File True True 0 [])])]),
            (''data'', Dir True True True [(''a.bin'', File True True 0 [1, 2, 3])])])
        [\<lparr>f_path = [''data'', ''a.bin''], f_name = ''a.bin'', f_size = 3, f_type = ''unknown'',
          f_modified = 0, f_source = ''existing'', f_recoverable = True\<rparr>]
        ''y'' []))
     [''home'', ''forensic_recovery'', ''20240101_120000'', ''a.bin''] = Inr [1, 2, 3]"
  by (simp add: recover_all_def recover_file_def recover_try_def log_def recovery_path_def
      log_file_def path_exists_def copy2_def read_file_def name_of_def Let_def)

text \<open>
  The copy takes the permission bits of its source: a read-only file recovered twice within
  one second is copied once, the second copy cannot open the first for writing, and the
  catalog gains one entry.
\<close>

lemma recover_all_read_only_twice:
  "map r_destination (snd (fst (recover_all
     \<lparr>print_error = (\<lambda>m. None), utf8 = (\<lambda>m. Inr [0x0A]),
      fromtimestamp = fromtimestamp_utc, now = 1700000000,
      time_stamp = (\<lambda>i. ''20240101_120000''), is_admin = False, cwd = [''home'']\<rparr>
     (Dir True True True
        [(''home'', Dir True True True
            [(''forensic_recovery'', Dir True True True
                [(''forensic_log.txt'', File True True 0 [])])]),
         (''data'', Dir True True True [(''a.bin'', File True False 0 [1, 2, 3])])])
     [\<lparr>f_path = [''data'', ''a.bin''], f_name = ''a.bin'', f_size = 3, f_type = ''unknown'',
       f_modified = 0, f_source = ''existing'', f_recoverable = True\<rparr>,
      \<lparr>f_path = [''data'', ''a.bin''], f_name = ''a.bin'', f_size = 3, f_type = ''unknown'',
       f_modified = 0, f_source = ''existing'', f_recoverable = True\<rparr>]
     ''y'' []))) =
   [[''home'', ''forensic_recovery'', ''20240101_120000'', ''a.bin'']]"
  by (simp add: recover_all_def recover_file_def recover_try_def log_def recovery_path_def
      log_file_def path_exists_def copy2_def read_file_def name_of_def Let_def)


section \<open>Claims about the buffer-mode scan\<close>

text \<open>
  Claim C9. For every finite byte buffer and every registry whose patterns are all
  non-empty, \<open>carve_files_from_data\<close> terminates: it returns a (finite) list of
  candidates. Not returning is the value \<open>None\<close> of the model, so the theorem says that
  the result is some list.
\<close>

theorem carve_files_from_data_terminates:
  "nonempty_patterns reg \<Longrightarrow>
   \<exists>carved_files. carve_files_from_data reg data = Some carved_files"
  by (simp add: carve_files_from_data_blocks)

theorem carve_files_from_data_terminates_witness:
  "nonempty_patterns android_file_signatures \<and>
   (\<exists>carved_files.
      carve_files_from_data android_file_signatures [0xFF, 0xD8, 0xFF, 0x00] = Some carved_files)"
  using carve_files_from_data_terminates [OF android_nonempty, of "[0xFF, 0xD8, 0xFF, 0x00]"]
    android_nonempty
  by blast

text \<open>
  Claim C10, as stated: every candidate is sound (the buffer holds its pattern at its
  offset), and for any fixed pattern the reported offsets are strictly increasing, successive
  ones at least the pattern's length apart.

  The second half fails when one pattern is registered under two tags, as \<open>50 4B 03 04\<close>
  is under \<open>zip\<close> and \<open>docx\<close>: each tag has a loop of its own, so the pattern is reported
  at offset 0 twice.
\<close>

theorem carve_shared_pattern_offsets_repeat:
  "carve_files_from_data android_file_signatures [0x50, 0x4B, 0x03, 0x04] =
     Some [\<lparr>type = ''zip'', offset = 0, signature = ''504b0304''\<rparr>,
           \<lparr>type = ''docx'', offset = 0, signature = ''504b0304''\<rparr>]"
  by code_simp

text \<open>
  Claim C10, amended: every candidate is sound, and for any fixed registration (a tag
  together with one of its patterns) the reported offsets are strictly increasing, any two of
  them at least the pattern's length apart. The registrations are distinct in a registry
  whose tags do not list a pattern twice, as in both shipped registries.
\<close>

theorem carve_sound_and_ordered_per_registration:
  assumes "nonempty_patterns reg" and "distinct (registrations reg)"
    and "carve_files_from_data reg data = Some carved_files"
  shows "(\<forall>c \<in> set carved_files. \<exists>sig. (type c, sig) \<in> set (registrations reg) \<and>
            signature c = hex sig \<and> take (length sig) (drop (offset c) data) = sig) \<and>
         (\<forall>(file_type, sig) \<in> set (registrations reg).
            sorted_wrt (\<lambda>a b. a + length sig \<le> b)
              (map offset (filter (\<lambda>c. type c = file_type \<and> signature c = hex sig) carved_files)))"
proof -
  from assms(1,3) have cs: "carved_files = concat (map (block data) (registrations reg))"
    by (simp add: carve_files_from_data_blocks)
  have sound: "\<forall>c \<in> set carved_files. \<exists>sig. (type c, sig) \<in> set (registrations reg) \<and>
            signature c = hex sig \<and> take (length sig) (drop (offset c) data) = sig"
  proof
    fix c assume "c \<in> set carved_files"
    with cs obtain r where r: "r \<in> set (registrations reg)" and c: "c \<in> set (block data r)"
      by auto
    obtain t s where ts: "r = (t, s)" by (cases r)
    from block_entry [OF c [unfolded ts]] r ts
    show "\<exists>sig. (type c, sig) \<in> set (registrations reg) \<and>
            signature c = hex sig \<and> take (length sig) (drop (offset c) data) = sig"
      by auto
  qed
  have ordered: "\<forall>(file_type, sig) \<in> set (registrations reg).
            sorted_wrt (\<lambda>a b. a + length sig \<le> b)
              (map offset (filter (\<lambda>c. type c = file_type \<and> signature c = hex sig) carved_files))"
  proof (clarify)
    fix file_type sig assume r: "(file_type, sig) \<in> set (registrations reg)"
    from filter_blocks [OF assms(2) r, of data] cs
    have "filter (\<lambda>c. type c = file_type \<and> signature c = hex sig) carved_files =
            block data (file_type, sig)" by simp
    then show "sorted_wrt (\<lambda>a b. a + length sig \<le> b)
              (map offset (filter (\<lambda>c. type c = file_type \<and> signature c = hex sig) carved_files))"
      by (simp add: block_offsets greedy_sorted)
  qed
  from sound ordered show ?thesis by blast
qed

theorem carve_sound_and_ordered_per_registration_witness:
  "nonempty_patterns android_file_signatures \<and>
   distinct (registrations android_file_signatures) \<and>
   carve_files_from_data android_file_signatures [0xFF, 0xD8, 0xFF, 0x00, 0xFF, 0xD8, 0xFF] =
     Some [\<lparr>type = ''jpg'', offset = 0, signature = ''ffd8ff''\<rparr>,
           \<lparr>type = ''jpg'', offset = 4, signature = ''ffd8ff''\<rparr>] \<and>
   sorted_wrt (\<lambda>a b. a + length [0xFF, 0xD8, 0xFF :: byte] \<le> b)
     (map offset (filter (\<lambda>c. type c = ''jpg'' \<and> signature c = hex [0xFF, 0xD8, 0xFF])
        [\<lparr>type = ''jpg'', offset = 0, signature = ''ffd8ff''\<rparr>,
         \<lparr>type = ''jpg'', offset = 4, signature = ''ffd8ff''\<rparr>]))"
proof -
  have run: "carve_files_from_data android_file_signatures [0xFF, 0xD8, 0xFF, 0x00, 0xFF, 0xD8, 0xFF] =
     Some [\<lparr>type = ''jpg'', offset = 0, signature = ''ffd8ff''\<rparr>,
           \<lparr>type = ''jpg'', offset = 4, signature = ''ffd8ff''\<rparr>]"
    by code_simp
  have reg: "(''jpg'', [0xFF, 0xD8, 0xFF]) \<in> set (registrations android_file_signatures)"
    by (simp add: registrations_def android_file_signatures_def)
  from carve_sound_and_ordered_per_registration [OF android_nonempty android_distinct run] reg
  have "sorted_wrt (\<lambda>a b. a + length [0xFF, 0xD8, 0xFF :: byte] \<le> b)
     (map offset (filter (\<lambda>c. type c = ''jpg'' \<and> signature c = hex [0xFF, 0xD8, 0xFF])
        [\<lparr>type = ''jpg'', offset = 0, signature = ''ffd8ff''\<rparr>,
         \<lparr>type = ''jpg'', offset = 4, signature = ''ffd8ff''\<rparr>]))"
    by blast
  with android_nonempty android_distinct run show ?thesis by blast
qed

text \<open>
  Claim C2, as stated: the scan reports a candidate for every occurrence of every registered
  pattern, overlapping occurrences of the same pattern included.

  After a hit the loop continues at \<open>pos + len(sig)\<close>, so an occurrence that overlaps a
  reported occurrence of the same pattern is never reported: \<open>FF D8 FF\<close> occurs at
  offsets 0 and 2 of \<open>FF D8 FF D8 FF\<close>, and only offset 0 is reported.
\<close>

theorem carve_skips_overlapping_occurrence:
  "carve_files_from_data android_file_signatures [0xFF, 0xD8, 0xFF, 0xD8, 0xFF] =
     Some [\<lparr>type = ''jpg'', offset = 0, signature = ''ffd8ff''\<rparr>] \<and>
   take 3 (drop 2 [0xFF, 0xD8, 0xFF, 0xD8, 0xFF :: byte]) = [0xFF, 0xD8, 0xFF]"
  by code_simp

text \<open>
  Claim C2, amended: scanning from offset 0, advancing by one byte on no match and by the
  pattern length on a match, the scan reports for every occurrence of every registered
  pattern either that occurrence or an occurrence of the same registration that starts
  before it and overlaps it. (Occurrences of different registrations are reported
  independently of each other, overlapping or not.)
\<close>

theorem carve_reports_or_overlaps:
  assumes "nonempty_patterns reg"
    and "carve_files_from_data reg data = Some carved_files"
    and "(file_type, sig) \<in> set (registrations reg)"
    and "q + length sig \<le> length data" and "take (length sig) (drop q data) = sig"
  shows "\<exists>c \<in> set carved_files. type c = file_type \<and> signature c = hex sig \<and>
           offset c \<le> q \<and> q < offset c + length sig"
proof -
  from assms(1,2) have cs: "carved_files = concat (map (block data) (registrations reg))"
    by (simp add: carve_files_from_data_blocks)
  from assms(1,3) have ne: "sig \<noteq> []" by (auto simp: nonempty_patterns_def)
  from greedy_covers [OF ne _ assms(4,5), of 0]
  obtain p where p: "p \<in> set (greedy data sig 0)" "p \<le> q" "q < p + length sig" by auto
  let ?c = "hit file_type sig p"
  from p(1) have "?c \<in> set (block data (file_type, sig))" by (simp add: block_def)
  with assms(3) cs have "?c \<in> set carved_files" by auto
  moreover have "type ?c = file_type \<and> signature ?c = hex sig \<and> offset ?c \<le> q \<and>
      q < offset ?c + length sig"
    using p(2,3) by (simp add: hit_def)
  ultimately show ?thesis by blast
qed

theorem carve_reports_or_overlaps_witness:
  "nonempty_patterns android_file_signatures \<and>
   carve_files_from_data android_file_signatures [0xFF, 0xD8, 0xFF, 0xD8, 0xFF] =
     Some [\<lparr>type = ''jpg'', offset = 0, signature = ''ffd8ff''\<rparr>] \<and>
   (''jpg'', [0xFF, 0xD8, 0xFF]) \<in> set (registrations android_file_signatures) \<and>
   2 + length [0xFF, 0xD8, 0xFF :: byte] \<le> length [0xFF, 0xD8, 0xFF, 0xD8, 0xFF :: byte] \<and>
   take (length [0xFF, 0xD8, 0xFF :: byte]) (drop 2 [0xFF, 0xD8, 0xFF, 0xD8, 0xFF :: byte]) =
     [0xFF, 0xD8, 0xFF] \<and>
   (\<exists>c \<in> set [\<lparr>type = ''jpg'', offset = 0, signature = ''ffd8ff''\<rparr>].
      type c = ''jpg'' \<and> signature c = hex [0xFF, 0xD8, 0xFF] \<and> offset c \<le> 2 \<and>
      2 < offset c + length [0xFF, 0xD8, 0xFF :: byte])"
proof -
  have run: "carve_files_from_data android_file_signatures [0xFF, 0xD8, 0xFF, 0xD8, 0xFF] =
     Some [\<lparr>type = ''jpg'', offset = 0, signature = ''ffd8ff''\<rparr>]"
    by code_simp
  have reg: "(''jpg'', [0xFF, 0xD8, 0xFF]) \<in> set (registrations android_file_signatures)"
    by (simp add: registrations_def android_file_signatures_def)
  have len: "2 + length [0xFF, 0xD8, 0xFF :: byte] \<le> length [0xFF, 0xD8, 0xFF, 0xD8, 0xFF :: byte]"
    by simp
  have occ: "take (length [0xFF, 0xD8, 0xFF :: byte]) (drop 2 [0xFF, 0xD8, 0xFF, 0xD8, 0xFF :: byte]) =
     [0xFF, 0xD8, 0xFF]"
    by simp
  from carve_reports_or_overlaps [OF android_nonempty run reg len occ]
    android_nonempty run reg len occ
  show ?thesis by blast
qed

text \<open>
  Claim C1, as stated: in buffer mode the carver extracts, for every candidate, artifact
  bytes of length min(registered maximum of the tag, distance to the next candidate, safety
  cap); a JPEG signature at offset 100 and a PNG signature at offset 5000 give a JPEG
  artifact of at most 4900 bytes.

  \<open>carve_files_from_data\<close> extracts nothing. On a buffer of 1 MB with exactly these two
  signatures its whole result is the two records below: tag, offset and the hex text of
  the three- or four-byte pattern. No length is computed, and \<open>typical_sizes\<close> (which
  holds the JPEG maximum of 10 MB) belongs to the other tool and is read by no function.
\<close>

theorem carve_extracts_no_bytes:
  "carve_files_from_data android_file_signatures
     (replicate 100 0 @ [0xFF, 0xD8, 0xFF] @ replicate 4897 0 @ [0x89, 0x50, 0x4E, 0x47] @
      replicate 1043572 0) =
     Some [\<lparr>type = ''jpg'', offset = 100, signature = ''ffd8ff''\<rparr>,
           \<lparr>type = ''png'', offset = 5000, signature = ''89504e47''\<rparr>] \<and>
   map_of typical_sizes ''jpg'' = Some (10 * 1024, 10 * 1024 * 1024)"
  using carve_two_hits [of 100 4897 1043572] by (simp add: two_hits_def typical_sizes_def)

text \<open>
  Claim C1, amended: in buffer mode the carver extracts no artifact bytes. For every
  candidate it records the tag, the match offset and the hex text of the matched pattern
  (two characters per pattern byte), whatever the registered maximum size and the distance to
  the next candidate; the pattern lies within the buffer at that offset.
\<close>

theorem carve_records_pattern_only:
  assumes "nonempty_patterns reg"
    and "carve_files_from_data reg data = Some carved_files"
    and "c \<in> set carved_files"
  shows "\<exists>sig. (type c, sig) \<in> set (registrations reg) \<and> signature c = hex sig \<and>
           length (signature c) = 2 * length sig \<and> offset c + length sig \<le> length data"
proof -
  from assms(1,2) have cs: "carved_files = concat (map (block data) (registrations reg))"
    by (simp add: carve_files_from_data_blocks)
  with assms(3) obtain r where r: "r \<in> set (registrations reg)" and c: "c \<in> set (block data r)"
    by auto
  obtain t s where ts: "r = (t, s)" by (cases r)
  from block_entry [OF c [unfolded ts]] r ts show ?thesis
    by (auto simp: length_hex)
qed

theorem carve_records_pattern_only_witness:
  "nonempty_patterns android_file_signatures \<and>
   carve_files_from_data android_file_signatures (two_hits 100 4897 20) =
     Some [\<lparr>type = ''jpg'', offset = 100, signature = ''ffd8ff''\<rparr>,
           \<lparr>type = ''png'', offset = 5000, signature = ''89504e47''\<rparr>] \<and>
   \<lparr>type = ''jpg'', offset = 100, signature = ''ffd8ff''\<rparr> \<in>
     set [\<lparr>type = ''jpg'', offset = 100, signature = ''ffd8ff''\<rparr>,
          \<lparr>type = ''png'', offset = 5000, signature = ''89504e47''\<rparr>] \<and>
   (\<exists>sig. (''jpg'', sig) \<in> set (registrations android_file_signatures) \<and>
      ''ffd8ff'' = hex sig \<and> length ''ffd8ff'' = 2 * length sig \<and>
      100 + length sig \<le> length (two_hits 100 4897 20))"
proof -
  have run: "carve_files_from_data android_file_signatures (two_hits 100 4897 20) =
     Some [\<lparr>type = ''jpg'', offset = 100, signature = ''ffd8ff''\<rparr>,
           \<lparr>type = ''png'', offset = 5000, signature = ''89504e47''\<rparr>]"
    using carve_two_hits [of 100 4897 20] by simp
  have mem: "\<lparr>type = ''jpg'', offset = 100, signature = ''ffd8ff''\<rparr> \<in>
     set [\<lparr>type = ''jpg'', offset = 100, signature = ''ffd8ff''\<rparr>,
          \<lparr>type = ''png'', offset = 5000, signature = ''89504e47''\<rparr>]"
    by simp
  from carve_records_pattern_only [OF android_nonempty run mem] android_nonempty run mem
  show ?thesis by simp
qed


section \<open>Claims about the matcher\<close>

lemma match_signatures_iff:
  "match_signatures data signatures \<longleftrightarrow> (\<exists>sig \<in> set signatures. prefix sig data)"
  by (induction signatures) auto

lemma detect_loop_first:
  assumes "\<forall>r \<in> set before. \<forall>sig \<in> set (snd r). \<not> prefix sig data"
    and "sig \<in> set signatures" and "prefix sig data"
  shows "detect_loop (before @ (file_type, signatures) # after) data = file_type"
  using assms
proof (induction before)
  case Nil
  then show ?case by (auto simp: match_signatures_iff)
next
  case (Cons a before)
  obtain t sigs where a: "a = (t, sigs)" by (cases a)
  from Cons.prems(1) a have "\<not> match_signatures data sigs"
    by (auto simp: match_signatures_iff)
  with Cons a show ?case by simp
qed

text \<open>
  Claim C4, as stated: where the patterns of two different registered tags both match, the
  matcher selects the tag with the longer pattern (\<open>AB\<close> and \<open>ABC\<close> select the \<open>ABC\<close>
  format), and the tag registered first when the lengths are equal.

  Neither tool sorts by length: the loop returns at the first match in registration order.
  With \<open>AB\<close> registered before \<open>ABC\<close> a window starting \<open>ABC\<close> is given the tag of
  \<open>AB\<close>, by the Android matcher and, on a window of 16 bytes, by the universal one.
\<close>

theorem detect_prefers_first_registered_over_longer:
  "android_detect_file_type [(''ab'', [[0x41, 0x42]]), (''abc'', [[0x41, 0x42, 0x43]])]
     [0x41, 0x42, 0x43] = ''ab'' \<and>
   detect_file_type [(''ab'', [[0x41, 0x42]]), (''abc'', [[0x41, 0x42, 0x43]])]
     [0x41, 0x42, 0x43, 0, 0, 0, 0, 0, 0, 0, 0, 0, 0, 0, 0, 0] = ''ab''"
  by (simp add: android_detect_file_type_def detect_file_type_def)

text \<open>
  Claim C4, amended: where the patterns of several registered tags match a window (of at
  least 16 bytes for the universal tool), the matcher selects the tag registered first among
  them, whatever the lengths of the patterns; in particular the tag registered first is
  selected when two matching patterns have equal length, and a longer pattern wins only when
  its tag comes first.
\<close>

theorem detect_selects_first_registered:
  assumes "reg = before @ (file_type, signatures) # after"
    and "\<forall>r \<in> set before. \<forall>sig \<in> set (snd r). \<not> prefix sig data"
    and "sig \<in> set signatures" and "prefix sig data"
  shows "android_detect_file_type reg data = file_type \<and>
         (16 \<le> length data \<longrightarrow> detect_file_type reg data = file_type)"
  using detect_loop_first [OF assms(2,3,4)] assms(1)
  by (simp add: android_detect_file_type_def detect_file_type_def)

theorem detect_selects_first_registered_witness:
  "android_detect_file_type android_file_signatures [0x50, 0x4B, 0x03, 0x04] = ''zip'' \<and>
   detect_file_type universal_file_signatures
     [0x50, 0x4B, 0x03, 0x04, 0, 0, 0, 0, 0, 0, 0, 0, 0, 0, 0, 0] = ''docx'' \<and>
   detect_file_type [(''abc'', [[0x41, 0x42, 0x43]]), (''ab'', [[0x41, 0x42]])]
     [0x41, 0x42, 0x43, 0, 0, 0, 0, 0, 0, 0, 0, 0, 0, 0, 0, 0] = ''abc''"
proof -
  let ?w = "[0x50, 0x4B, 0x03, 0x04, 0, 0, 0, 0, 0, 0, 0, 0, 0, 0, 0, 0] :: bytes"
  let ?v = "[0x41, 0x42, 0x43, 0, 0, 0, 0, 0, 0, 0, 0, 0, 0, 0, 0, 0] :: bytes"
  have a: "android_detect_file_type android_file_signatures [0x50, 0x4B, 0x03, 0x04] = ''zip''"
    using detect_selects_first_registered
      [of android_file_signatures "take 4 android_file_signatures" "''zip''"
        "[[0x50, 0x4B, 0x03, 0x04]]" "drop 5 android_file_signatures"
        "[0x50, 0x4B, 0x03, 0x04]" "[0x50, 0x4B, 0x03, 0x04]"]
    by (simp add: android_file_signatures_def)
  have u: "detect_file_type universal_file_signatures ?w = ''docx''"
    using detect_selects_first_registered
      [of universal_file_signatures "take 8 universal_file_signatures" "''docx''"
        "[[0x50, 0x4B, 0x03, 0x04]]" "drop 9 universal_file_signatures"
        ?w "[0x50, 0x4B, 0x03, 0x04]"]
    by (simp add: universal_file_signatures_def)
  have h: "detect_file_type [(''abc'', [[0x41, 0x42, 0x43]]), (''ab'', [[0x41, 0x42]])] ?v = ''abc''"
    using detect_selects_first_registered
      [of "[(''abc'', [[0x41, 0x42, 0x43]]), (''ab'', [[0x41, 0x42]])]" "[]" "''abc''"
        "[[0x41, 0x42, 0x43]]" "[(''ab'', [[0x41, 0x42]])]" ?v "[0x41, 0x42, 0x43]"]
    by simp
  from a u h show ?thesis by simp
qed

lemma longest_pattern_universal: "longest_pattern universal_file_signatures = 15"
  by (simp add: longest_pattern_def registrations_def universal_file_signatures_def)

text \<open>
  Claim C5, as stated: on a window shorter than the longest registered pattern the matcher
  never raises, still attempts the patterns that fit, so that a window beginning with such a
  pattern is matched to its tag, and returns unknown when the window is shorter than every
  pattern.

  The universal matcher returns \<open>'unknown'\<close> for every window shorter than 16 bytes before
  it looks at any pattern: the two-byte window \<open>42 4D\<close> begins with (is) the registered
  \<open>bmp\<close> pattern and is not matched.
\<close>

theorem detect_file_type_short_window_not_matched:
  "detect_file_type universal_file_signatures [0x42, 0x4D] = ''unknown'' \<and>
   (''bmp'', [0x42, 0x4D]) \<in> set (registrations universal_file_signatures) \<and>
   prefix [0x42, 0x4D] [0x42, 0x4D :: byte] \<and>
   length [0x42, 0x4D :: byte] < longest_pattern universal_file_signatures"
  by (simp add: detect_file_type_def longest_pattern_universal)
    (simp add: registrations_def universal_file_signatures_def)

text \<open>
  Claim C5, amended: on every window shorter than the longest registered pattern (15 bytes;
  the guard is at 16) the matcher never raises and returns unknown, whether or not the window
  begins with a registered pattern: no pattern is attempted.
\<close>

theorem detect_file_type_short_window_unknown:
  assumes "length data < longest_pattern universal_file_signatures"
  shows "detect_file_type universal_file_signatures data = ''unknown''"
  using assms by (simp add: detect_file_type_def longest_pattern_universal)

theorem detect_file_type_short_window_unknown_witness:
  "length [0xFF, 0xD8, 0xFF, 0xE0 :: byte] < longest_pattern universal_file_signatures \<and>
   detect_file_type universal_file_signatures [0xFF, 0xD8, 0xFF, 0xE0] = ''unknown''"
proof -
  have l: "length [0xFF, 0xD8, 0xFF, 0xE0 :: byte] < longest_pattern universal_file_signatures"
    by (simp add: longest_pattern_universal)
  from detect_file_type_short_window_unknown [OF l] l show ?thesis by simp
qed


section \<open>Tree mode: scanning and recovering\<close>



text \<open>
  Claim C7: during a tree-mode scan every file or directory that cannot be read is skipped
  without aborting the scan; permission denied on one subdirectory does not prevent the
  discovery of files in sibling readable subdirectories.

  The scan passes over a file that cannot be opened and over a directory that cannot be
  listed. It stops at the first entry of a directory that can be listed but not searched:
  \<open>is_file\<close> raises \<open>PermissionError\<close> there, outside the \<open>try\<close> that passes over such
  errors, and the files of the sibling directory that would have come next are not found.
  The two scans of \<open>mnt\<close> below differ only in whether \<open>locked\<close> may be listed; the tool
  runs in \<open>home\<close>, where its log can be written.
\<close>

theorem scan_drive_deep_stops_at_unsearchable_directory:
  "fst (scan_drive_deep
     \<lparr>print_error = (\<lambda>m. None), utf8 = (\<lambda>m. Inr [0x0A]),
      fromtimestamp = fromtimestamp_utc, now = 1700000000,
      time_stamp = (\<lambda>i. ''20240101_120000''), is_admin = False, cwd = [''home'']\<rparr>
     universal_file_signatures
     (Dir True True True
        [(''home'', Dir True True True
            [(''forensic_recovery'', Dir True True True
                [(''forensic_log.txt'', File True True 0 [])])]),
         (''mnt'', Dir True True True
            [(''locked'', Dir True True False [(''f.txt'', File True True 0 [])]),
             (''open'', Dir True True True
                [(''h.bin'', File False True 0 []),
                 (''g.png'', File True True 0
                               ([0x89, 0x50, 0x4E, 0x47, 0x0D, 0x0A, 0x1A, 0x0A] @
                                replicate 8 0))])])])
     [''mnt''] None) = Inr [] \<and>
   fst (scan_drive_deep
     \<lparr>print_error = (\<lambda>m. None), utf8 = (\<lambda>m. Inr [0x0A]),
      fromtimestamp = fromtimestamp_utc, now = 1700000000,
      time_stamp = (\<lambda>i. ''20240101_120000''), is_admin = False, cwd = [''home'']\<rparr>
     universal_file_signatures
     (Dir True True True
        [(''home'', Dir True True True
            [(''forensic_recovery'', Dir True True True
                [(''forensic_log.txt'', File True True 0 [])])]),
         (''mnt'', Dir True True True
            [(''locked'', Dir False True False [(''f.txt'', File True True 0 [])]),
             (''open'', Dir True True True
                [(''h.bin'', File False True 0 []),
                 (''g.png'', File True True 0
                               ([0x89, 0x50, 0x4E, 0x47, 0x0D, 0x0A, 0x1A, 0x0A] @
                                replicate 8 0))])])])
     [''mnt''] None) =
     Inr [\<lparr>f_path = [''mnt'', ''open'', ''g.png''], f_name = ''g.png'', f_size = 16,
           f_type = ''png'', f_modified = 0, f_source = ''existing'',
           f_recoverable = True\<rparr>]"
  by (simp add: scan_drive_deep_def scan_try_def log_def recovery_path_def log_file_def
      path_exists_def rglob_at_def is_file_def scan_file_def fromtimestamp_utc_def name_of_def
      detect_file_type_def universal_file_signatures_def)










end
